theory Spec2Isabelle
  imports Complex_Main "HOL-Library.Multiset"
begin

section \<open>Conventions of the embedding\<close>

text \<open>
  The development embeds the ingestion pipeline and the retrieval engine of the video
  question-answering service. Python \<^verbatim>\<open>float\<close> values (timestamps, distances, progress
  fractions) are embedded as \<^typ>\<open>real\<close>: the arithmetic is exact, rounding and NaN are not
  part of the embedding. Python \<^verbatim>\<open>str\<close> is \<^typ>\<open>string\<close>, a character being a code
  point below 256. Exceptions are values of the type \<open>error\<close>; a call that may raise returns
  \<open>error + 'a\<close> with \<open>Inl\<close> for the exception. Only subclasses of \<^verbatim>\<open>Exception\<close> are
  embedded, since these are what the handlers of the source catch. External capabilities
  (caption provider, vision model, embedding model, text model, vector store, file system)
  are parameters of the functions that call them.
\<close>

datatype error =
    ValidationError
  | AttributeError
  | TypeError
  | ValueError
  | KeyError
  | IndexError
  | CapabilityError string
  | HTTPException nat string

definition bind_result :: "error + 'a \<Rightarrow> ('a \<Rightarrow> error + 'b) \<Rightarrow> error + 'b" where
  "bind_result m f = (case m of Inl e \<Rightarrow> Inl e | Inr x \<Rightarrow> f x)"

text \<open>\<^verbatim>\<open>str(e)\<close> of an exception.\<close>

definition str_error :: "error \<Rightarrow> string" where
  "str_error e =
     (case e of
        CapabilityError msg \<Rightarrow> msg
      | HTTPException code detail \<Rightarrow> detail
      | ValidationError \<Rightarrow> ''validation error''
      | AttributeError \<Rightarrow> ''attribute error''
      | TypeError \<Rightarrow> ''type error''
      | ValueError \<Rightarrow> ''value error''
      | KeyError \<Rightarrow> ''key error''
      | IndexError \<Rightarrow> ''index error'')"

text \<open>
  Untyped Python values, as they occur in provider entries and in the metadata of the
  vector store: \<^verbatim>\<open>None\<close>, a string or a number. A dictionary with string keys is a map.
\<close>

datatype pyval = PNone | PStr string | PNum real

type_synonym pydict = "string \<rightharpoonup> pyval"

definition dict_get :: "pydict \<Rightarrow> string \<Rightarrow> pyval \<Rightarrow> pyval" where
  "dict_get d k dflt = (case d k of Some v \<Rightarrow> v | None \<Rightarrow> dflt)"

text \<open>Truth value of a Python value (\<^verbatim>\<open>if v:\<close>).\<close>

definition truthy :: "pyval \<Rightarrow> bool" where
  "truthy v = (case v of PNone \<Rightarrow> False | PStr s \<Rightarrow> s \<noteq> [] | PNum r \<Rightarrow> r \<noteq> 0)"

text \<open>
  \<^verbatim>\<open>str.strip()\<close> removes leading and trailing whitespace; below code point 256 the
  whitespace characters of Python are 9 to 13, 28 to 32, 133 and 160.
\<close>

definition py_isspace :: "char \<Rightarrow> bool" where
  "py_isspace c = ((of_char c :: nat) \<in> {9, 10, 11, 12, 13, 28, 29, 30, 31, 32, 133, 160})"

definition strip :: "string \<Rightarrow> string" where
  "strip s = rev (dropWhile py_isspace (rev (dropWhile py_isspace s)))"

definition py_strip :: "pyval \<Rightarrow> error + string" where
  "py_strip v = (case v of PStr s \<Rightarrow> Inr (strip s) | _ \<Rightarrow> Inl AttributeError)"

text \<open>
  \<^verbatim>\<open>float(v)\<close>: a number converts to itself, \<^verbatim>\<open>None\<close> raises; a string converts when
  it is a float literal, which the parameter \<open>float_of_str\<close> decides.
\<close>

definition py_float :: "(string \<Rightarrow> real option) \<Rightarrow> pyval \<Rightarrow> error + real" where
  "py_float float_of_str v =
     (case v of
        PNum r \<Rightarrow> Inr r
      | PStr s \<Rightarrow> (case float_of_str s of Some r \<Rightarrow> Inr r | None \<Rightarrow> Inl ValueError)
      | PNone \<Rightarrow> Inl TypeError)"

text \<open>Decimal rendering of a natural number, as an f-string renders a loop index.\<close>

definition digit_char :: "nat \<Rightarrow> char" where
  "digit_char d = ''0123456789'' ! d"

function str_nat :: "nat \<Rightarrow> string" where
  "str_nat n = (if n < 10 then [digit_char n] else str_nat (n div 10) @ [digit_char (n mod 10)])"
  by pat_completeness auto
termination
  by (relation "measure (\<lambda>n. n)") auto

declare str_nat.simps [simp del]

section \<open>Data model (src/models/video_data.py)\<close>

text \<open>
  The pydantic models become records with the declared fields. \<^verbatim>\<open>FrameData\<close> declares
  neither \<^verbatim>\<open>thumbnail_path\<close> nor \<^verbatim>\<open>video_id\<close>: keyword arguments that are not declared
  are dropped at construction, and reading such an attribute raises \<^verbatim>\<open>AttributeError\<close>.
  \<^verbatim>\<open>VideoTranscript\<close> and \<^verbatim>\<open>VideoFrame\<close> are aliases of \<^verbatim>\<open>TranscriptChunk\<close> and
  \<^verbatim>\<open>FrameData\<close>. Field names that clash with a constant or keyword of the logic carry
  a prefix.
\<close>

record TranscriptChunk =
  chunk_id :: string
  chunk_text :: string
  start_time :: real
  end_time :: real
  chunk_confidence :: "real option"
  speaker :: "string option"

record FrameData =
  frame_id :: string
  frame_path :: string
  timestamp :: real
  scene_description :: "string option"
  objects_detected :: "string list"
  confidence_scores :: "(string \<times> real) list"

text \<open>\<^verbatim>\<open>frame.scene_description\<close> as a condition: present and not the empty string.\<close>

definition described :: "FrameData \<Rightarrow> bool" where
  "described frame = (case scene_description frame of None \<Rightarrow> False | Some d \<Rightarrow> d \<noteq> [])"

datatype VideoStatus = UPLOADED | PROCESSING | COMPLETED | FAILED | TRANSCRIPT_ONLY

record VideoMetadata =
  metadata_id :: string
  file_path :: "string option"
  source_url :: "string option"
  video_status :: VideoStatus

section \<open>Video-identifier resolution (src/api/routes/chat.py)\<close>

text \<open>
  A dictionary of the list \<^verbatim>\<open>available_videos\<close> is a map from keys to values;
  \<^verbatim>\<open>v.get('video_id')\<close> is the lookup, \<open>None\<close> when the key is absent.
\<close>

type_synonym video_info = "string \<rightharpoonup> string"

definition startswith :: "string \<Rightarrow> string \<Rightarrow> bool" where
  "startswith s p = (take (length p) s = p)"

definition get_video_id_match :: "string \<Rightarrow> video_info list \<Rightarrow> string option" where
  "get_video_id_match video_id available_videos =
     (let video_ids = map (\<lambda>v. v ''video_id'') available_videos in
      if Some video_id \<in> set video_ids then Some video_id
      else if Some (''youtube_'' @ video_id) \<in> set video_ids then Some (''youtube_'' @ video_id)
      else if startswith video_id ''youtube_'' \<and> Some (drop 8 video_id) \<in> set video_ids
        then Some (drop 8 video_id)
      else None)"

text \<open>The identifiers that the available videos carry, as a set.\<close>

definition available_ids :: "video_info list \<Rightarrow> string set" where
  "available_ids available_videos = {i. \<exists>v \<in> set available_videos. v ''video_id'' = Some i}"

section \<open>Status tracker (src/api/routes/videos.py)\<close>

text \<open>
  The process-wide dictionary \<^verbatim>\<open>processing_status\<close> maps a video identifier to an entry
  with the keys \<^verbatim>\<open>status\<close>, \<^verbatim>\<open>progress\<close>, \<^verbatim>\<open>message\<close> and, optionally, \<^verbatim>\<open>note\<close>.
  Every entry the program writes has a status and a progress.
\<close>

record status_entry =
  status :: string
  progress :: real
  message :: "string option"
  note_opt :: "string option"

type_synonym tracker = "string \<rightharpoonup> status_entry"

text \<open>
  The response model \<^verbatim>\<open>ProcessingStatus\<close>; its constructor validates
  \<^verbatim>\<open>progress: float = Field(ge=0.0, le=1.0)\<close>.
\<close>

record ProcessingStatus =
  ps_video_id :: string
  ps_status :: string
  ps_progress :: real
  ps_message :: "string option"
  ps_note :: "string option"

definition ProcessingStatus_new ::
  "string \<Rightarrow> string \<Rightarrow> real \<Rightarrow> string option \<Rightarrow> string option \<Rightarrow> error + ProcessingStatus" where
  "ProcessingStatus_new video_id st pr msg nt =
     (if 0 \<le> pr \<and> pr \<le> 1
      then Inr \<lparr>ps_video_id = video_id, ps_status = st, ps_progress = pr,
                ps_message = msg, ps_note = nt\<rparr>
      else Inl ValidationError)"

text \<open>
  The durable record of a video is the file \<^verbatim>\<open>metadata.json\<close> in the directory of the
  video. \<open>stored video_id\<close> is \<open>None\<close> when the directory or the file is absent,
  \<open>Some (Inl e)\<close> when opening or reading it as a dictionary raises, and \<open>Some (Inr d)\<close>
  with the string-valued entries of the dictionary otherwise.
\<close>

type_synonym storage = "string \<Rightarrow> (error + (string \<rightharpoonup> string)) option"

text \<open>
  \<^verbatim>\<open>get_processing_status\<close> returns the response or the exception it raises, and the
  tracker, to which it adds the entry it synthesizes. An exception in the \<^verbatim>\<open>try\<close> block is
  logged and the function goes on to raise the 404.
\<close>

definition get_processing_status ::
  "string \<Rightarrow> tracker \<Rightarrow> storage \<Rightarrow> (error + ProcessingStatus) \<times> tracker" where
  "get_processing_status video_id processing_status stored =
     (case processing_status video_id of
        Some status_data \<Rightarrow>
          (ProcessingStatus_new video_id (status status_data) (progress status_data)
             (message status_data) (note_opt status_data),
           processing_status)
      | None \<Rightarrow>
          (case stored video_id of
             Some (Inr metadata_dict) \<Rightarrow>
               (let entry =
                      \<lparr>status = (if metadata_dict ''status'' \<noteq> Some ''processing''
                                 then ''completed'' else ''processing''),
                       progress = (if metadata_dict ''status'' \<noteq> Some ''processing''
                                   then 1 else 1 / 2),
                       message = Some ''Video is available'',
                       note_opt = None\<rparr>;
                    processing_status' = processing_status(video_id \<mapsto> entry)
                in (case ProcessingStatus_new video_id (status entry) (progress entry)
                           (message entry) None of
                      Inr r \<Rightarrow> (Inr r, processing_status')
                    | Inl e \<Rightarrow> (Inl (HTTPException 404 ''Video not found''), processing_status')))
           | Some (Inl e) \<Rightarrow> (Inl (HTTPException 404 ''Video not found''), processing_status)
           | None \<Rightarrow> (Inl (HTTPException 404 ''Video not found''), processing_status)))"

section \<open>Caption acquisition (src/services/video_processor.py)\<close>

text \<open>
  The search of \<^verbatim>\<open>(?:v=|\/)([0-9A-Za-z_-]{11}).*\<close> in the URL: at the leftmost position
  where \<^verbatim>\<open>v=\<close> or \<^verbatim>\<open>/\<close> is followed by eleven identifier characters, the group is
  these eleven characters.
\<close>

definition is_id_char :: "char \<Rightarrow> bool" where
  "is_id_char c =
     (let n = (of_char c :: nat)
      in (48 \<le> n \<and> n \<le> 57) \<or> (65 \<le> n \<and> n \<le> 90) \<or> (97 \<le> n \<and> n \<le> 122) \<or>
         c = CHR ''_'' \<or> c = CHR ''-'')"

definition id11 :: "string \<Rightarrow> string option" where
  "id11 s = (if 11 \<le> length s \<and> list_all is_id_char (take 11 s) then Some (take 11 s) else None)"

definition match_video_id :: "string \<Rightarrow> string option" where
  "match_video_id s =
     (case (if take 2 s = ''v='' then id11 (drop 2 s) else None) of
        Some i \<Rightarrow> Some i
      | None \<Rightarrow> (if take 1 s = ''/'' then id11 (drop 1 s) else None))"

fun search_video_id :: "string \<Rightarrow> string option" where
  "search_video_id [] = None"
| "search_video_id (c # cs) =
     (case match_video_id (c # cs) of Some i \<Rightarrow> Some i | None \<Rightarrow> search_video_id cs)"

text \<open>
  A provider entry is a dictionary with the keys \<^verbatim>\<open>text\<close>, \<^verbatim>\<open>start\<close> and
  \<^verbatim>\<open>duration\<close>. \<open>entry_chunk\<close> is the body of the inner \<^verbatim>\<open>try\<close> of the conversion loop:
  it builds the chunk of entry \<open>i\<close> or raises. The loop keeps the chunk when its text is
  not empty and skips the entry when the body raises.
\<close>

type_synonym caption_entry = pydict

definition entry_chunk ::
  "(string \<Rightarrow> real option) \<Rightarrow> string \<Rightarrow> nat \<Rightarrow> caption_entry \<Rightarrow> error + TranscriptChunk" where
  "entry_chunk float_of_str video_id i entry =
     bind_result (py_strip (dict_get entry ''text'' (PStr []))) (\<lambda>txt.
     bind_result (py_float float_of_str (dict_get entry ''start'' (PNum 0))) (\<lambda>start.
     bind_result (py_float float_of_str (dict_get entry ''start'' (PNum 0))) (\<lambda>start'.
     bind_result (py_float float_of_str (dict_get entry ''duration'' (PNum 0))) (\<lambda>duration.
       Inr \<lparr>chunk_id = video_id @ ''_transcript_'' @ str_nat i,
            chunk_text = txt,
            start_time = start,
            end_time = start' + duration,
            chunk_confidence = None,
            speaker = None\<rparr>))))"

fun convert_entries ::
  "(string \<Rightarrow> real option) \<Rightarrow> string \<Rightarrow> nat \<Rightarrow> caption_entry list \<Rightarrow> TranscriptChunk list" where
  "convert_entries float_of_str video_id i [] = []"
| "convert_entries float_of_str video_id i (entry # rest) =
     (case entry_chunk float_of_str video_id i entry of
        Inr chunk \<Rightarrow>
          (if chunk_text chunk \<noteq> [] then [chunk] else []) @
          convert_entries float_of_str video_id (Suc i) rest
      | Inl e \<Rightarrow> convert_entries float_of_str video_id (Suc i) rest)"

text \<open>
  \<^verbatim>\<open>extract_youtube_transcript\<close>. The flag says whether the caption library was imported;
  \<open>get_best_transcript\<close> is the fallback chain of the caption provider for an external
  video identifier, whose exceptions the outer handler turns into the empty result.
\<close>

definition extract_youtube_transcript ::
  "bool \<Rightarrow> (string \<Rightarrow> error + caption_entry list) \<Rightarrow> (string \<Rightarrow> real option) \<Rightarrow>
     string \<Rightarrow> string \<Rightarrow> TranscriptChunk list" where
  "extract_youtube_transcript youtube_transcript_available get_best_transcript float_of_str
       url video_id =
     (if \<not> youtube_transcript_available then []
      else case search_video_id url of
             None \<Rightarrow> []
           | Some yt_video_id \<Rightarrow>
               (case get_best_transcript yt_video_id of
                  Inl e \<Rightarrow> []
                | Inr transcript_list \<Rightarrow>
                    if transcript_list = [] then []
                    else convert_entries float_of_str video_id 0 transcript_list))"


text \<open>Three provider entries: a caption, a blank caption, and a caption without duration.\<close>

definition example_captions :: "caption_entry list" where
  "example_captions =
     [ [''text'' \<mapsto> PStr '' hi '', ''start'' \<mapsto> PNum 1, ''duration'' \<mapsto> PNum 2],
      [''text'' \<mapsto> PStr ''  '', ''start'' \<mapsto> PNum 3, ''duration'' \<mapsto> PNum 1],
      [''text'' \<mapsto> PStr ''yo'', ''start'' \<mapsto> PNum 4]]"

section \<open>Timestamp extraction (src/services/ai_service.py)\<close>

text \<open>
  The pattern \<^verbatim>\<open>\[(\d{1,2}):(\d{2})\]\<close> of \<^verbatim>\<open>_extract_timestamps\<close>. The minutes group is
  greedy: two digits are tried first, one digit on backtracking. \<open>match_timestamp\<close> is the
  match attempt at the head of the string and returns the two groups and the rest of the
  string after the match.
\<close>

definition is_digit :: "char \<Rightarrow> bool" where
  "is_digit c = (48 \<le> (of_char c :: nat) \<and> (of_char c :: nat) \<le> 57)"

definition digit_val :: "char \<Rightarrow> nat" where
  "digit_val c = of_char c - 48"

definition int_of_digits :: "string \<Rightarrow> nat" where
  "int_of_digits ds = foldl (\<lambda>a c. 10 * a + digit_val c) 0 ds"

definition match_seconds :: "string \<Rightarrow> (string \<times> string) option" where
  "match_seconds s =
     (case s of
        c # s1 # s2 # e # rest \<Rightarrow>
          if c = CHR '':'' \<and> is_digit s1 \<and> is_digit s2 \<and> e = CHR '']''
          then Some ([s1, s2], rest) else None
      | _ \<Rightarrow> None)"

definition match_timestamp :: "string \<Rightarrow> ((string \<times> string) \<times> string) option" where
  "match_timestamp s =
     (case s of
        b # m1 # r1 \<Rightarrow>
          if b = CHR ''['' \<and> is_digit m1 then
            (case (case r1 of
                     m2 # r2 \<Rightarrow>
                       if is_digit m2
                       then map_option (\<lambda>(sec, rest). (([m1, m2], sec), rest)) (match_seconds r2)
                       else None
                   | [] \<Rightarrow> None) of
               Some res \<Rightarrow> Some res
             | None \<Rightarrow> map_option (\<lambda>(sec, rest). (([m1], sec), rest)) (match_seconds r1))
          else None
      | _ \<Rightarrow> None)"

text \<open>\<^verbatim>\<open>re.findall\<close>: the matches from left to right, the scan resuming after each match.\<close>

function findall_timestamps :: "string \<Rightarrow> (string \<times> string) list" where
  "findall_timestamps [] = []"
| "findall_timestamps (c # cs) =
     (case match_timestamp (c # cs) of
        Some (m, rest) \<Rightarrow> m # findall_timestamps rest
      | None \<Rightarrow> findall_timestamps cs)"
  by pat_completeness auto
termination
  by (relation "measure length")
     (auto simp: match_timestamp_def match_seconds_def
           split: list.splits if_splits option.splits)

text \<open>
  Python's \<^verbatim>\<open>min(xs, key=f)\<close> on a non-empty list: the first element of least key.
\<close>

fun min_by_key :: "('a \<Rightarrow> real) \<Rightarrow> 'a \<Rightarrow> 'a list \<Rightarrow> 'a" where
  "min_by_key key best [] = best"
| "min_by_key key best (x # xs) = min_by_key key (if key x < key best then x else best) xs"

definition seconds_of :: "string \<times> string \<Rightarrow> real" where
  "seconds_of match = real (int_of_digits (fst match) * 60 + int_of_digits (snd match))"

fun collect_timestamps :: "real list \<Rightarrow> (string \<times> string) list \<Rightarrow> real list" where
  "collect_timestamps available_timestamps [] = []"
| "collect_timestamps available_timestamps (match # matches) =
     (let timestamp = seconds_of match in
        (case available_timestamps of
           [] \<Rightarrow> []
         | a # as \<Rightarrow>
             (let closest = min_by_key (\<lambda>x. \<bar>x - timestamp\<bar>) a as
              in if \<bar>closest - timestamp\<bar> \<le> 30 then [closest] else []))
        @ collect_timestamps available_timestamps matches)"

text \<open>
  \<^verbatim>\<open>list(set(timestamps))\<close> lists each element once, in the iteration order of the
  Python set, which the language leaves open. The order is the parameter \<open>set_order\<close>, a
  rearrangement of the list of distinct elements.
\<close>

definition is_set_order :: "(real list \<Rightarrow> real list) \<Rightarrow> bool" where
  "is_set_order set_order = (\<forall>xs. mset (set_order xs) = mset xs)"

definition extract_timestamps :: "(real list \<Rightarrow> real list) \<Rightarrow> string \<Rightarrow> real list \<Rightarrow> real list" where
  "extract_timestamps set_order response available_timestamps =
     set_order (remdups (collect_timestamps available_timestamps (findall_timestamps response)))"

text \<open>
  The part of \<^verbatim>\<open>chat_with_video\<close> that decides the timestamp references. The candidate
  timestamps are the start times of the first five transcript chunks and the timestamps of
  the described frames among the first three. \<open>generated\<close> is the outcome of assembling
  the prompt and calling the text model: an exception, a response without content, or the
  response text.
\<close>

definition context_timestamps :: "TranscriptChunk list \<Rightarrow> FrameData list \<Rightarrow> real list" where
  "context_timestamps transcript_chunks frames =
     map start_time (take 5 transcript_chunks) @ map timestamp (filter described (take 3 frames))"

definition chat_with_video ::
  "(real list \<Rightarrow> real list) \<Rightarrow> bool \<Rightarrow> error + string option \<Rightarrow>
     TranscriptChunk list \<Rightarrow> FrameData list \<Rightarrow> string \<times> real list" where
  "chat_with_video set_order text_model_available generated transcript_chunks frames =
     (if \<not> text_model_available
      then (''AI chat not available. Please configure Gemini API key.'', [])
      else case generated of
             Inl e \<Rightarrow> (''Sorry, I encountered an error: '' @ str_error e, [])
           | Inr response \<Rightarrow>
               (let response_text =
                      (case response of Some t \<Rightarrow> t | None \<Rightarrow> ''Unable to generate response'')
                in (response_text,
                    extract_timestamps set_order response_text
                      (context_timestamps transcript_chunks frames))))"

text \<open>
  The validator of the field \<^verbatim>\<open>timestamp_references\<close>, declared with the same body in
  \<^verbatim>\<open>ChatResponse\<close> and in \<^verbatim>\<open>QueryResult\<close> (src/models/video_data.py).
\<close>

definition ChatResponse_validate_timestamps :: "real list \<Rightarrow> error + real list" where
  "ChatResponse_validate_timestamps v =
     (if v \<noteq> [] \<and> (\<exists>t \<in> set v. t < 0) then Inl ValueError else Inr (sort v))"

definition QueryResult_validate_timestamps :: "real list \<Rightarrow> error + real list" where
  "QueryResult_validate_timestamps v =
     (if v \<noteq> [] \<and> (\<exists>t \<in> set v. t < 0) then Inl ValueError else Inr (sort v))"

text \<open>A candidate closest to \<open>t\<close> among the available timestamps.\<close>

definition is_closest :: "real list \<Rightarrow> real \<Rightarrow> real \<Rightarrow> bool" where
  "is_closest available_timestamps t x =
     (x \<in> set available_timestamps \<and> (\<forall>y \<in> set available_timestamps. \<bar>x - t\<bar> \<le> \<bar>y - t\<bar>))"

text \<open>An occurrence of the pattern: one or two digits, a colon, two digits, in brackets.\<close>

definition is_occurrence :: "string \<Rightarrow> string \<Rightarrow> string \<Rightarrow> bool" where
  "is_occurrence m s occ =
     (occ = ''['' @ m @ '':'' @ s @ '']'' \<and> (length m = 1 \<or> length m = 2) \<and> length s = 2 \<and>
      list_all is_digit m \<and> list_all is_digit s)"

text \<open>
  The number that a group of one or two decimal digits denotes: the digit string \<open>ds\<close>
  reads as \<open>n\<close> when it is the single digit of \<open>n\<close> below ten, or the two digits, tens
  first, of \<open>n\<close> below one hundred.
\<close>

definition reads_as :: "string \<Rightarrow> nat \<Rightarrow> bool" where
  "reads_as ds n =
     ((n < 10 \<and> ds = [''0123456789'' ! n]) \<or>
      (n < 100 \<and> ds = [''0123456789'' ! (n div 10), ''0123456789'' ! (n mod 10)]))"

section \<open>Frame description and pseudo-transcript (src/services)\<close>

text \<open>
  The vision capability and the file system, as \<^verbatim>\<open>analyze_image\<close> uses them: whether the
  vision model was initialised, whether a path exists, and the outcome of opening the
  image and asking the model to describe it (an exception, a response without content, or
  the response text).
\<close>

record vision_env =
  vision_model_available :: bool
  path_exists :: "string \<Rightarrow> bool"
  vision_generate :: "string \<Rightarrow> error + string option"

definition analyze_image :: "vision_env \<Rightarrow> string \<Rightarrow> string" where
  "analyze_image env image_path =
     (if \<not> vision_model_available env \<or> \<not> path_exists env image_path
      then ''Image analysis not available''
      else case vision_generate env image_path of
             Inl e \<Rightarrow> ''Analysis failed: '' @ str_error e
           | Inr None \<Rightarrow> ''Could not generate description''
           | Inr (Some txt) \<Rightarrow> strip txt)"

text \<open>
  \<^verbatim>\<open>analyze_video_frames\<close> visits the frames in order, in batches of three that differ
  only in the pauses between the calls: a frame whose file does not exist is left out,
  every other frame receives the description that \<^verbatim>\<open>analyze_image\<close> returns, which
  replaces the description it had.
\<close>

fun analyze_frames :: "vision_env \<Rightarrow> FrameData list \<Rightarrow> FrameData list" where
  "analyze_frames env [] = []"
| "analyze_frames env (frame # rest) =
     (if \<not> path_exists env (frame_path frame) then analyze_frames env rest
      else frame\<lparr>scene_description := Some (analyze_image env (frame_path frame))\<rparr>
           # analyze_frames env rest)"

definition analyze_video_frames :: "vision_env \<Rightarrow> FrameData list \<Rightarrow> FrameData list" where
  "analyze_video_frames env frames = (if frames = [] then [] else analyze_frames env frames)"

text \<open>
  The loop of \<^verbatim>\<open>generate_pseudo_transcript_from_frames\<close> over the sorted frames, at index
  \<open>i\<close>: a frame with a description yields a chunk that ends at the timestamp of the next
  frame of the list, or five seconds after its own timestamp when it is the last frame.
\<close>

fun pseudo_chunks :: "string \<Rightarrow> nat \<Rightarrow> FrameData list \<Rightarrow> TranscriptChunk list" where
  "pseudo_chunks video_id i [] = []"
| "pseudo_chunks video_id i (frame # rest) =
     (case scene_description frame of
        None \<Rightarrow> []
      | Some description \<Rightarrow>
          if description = [] then []
          else [\<lparr>chunk_id = video_id @ ''_visual_transcript_'' @ str_nat i,
                 chunk_text = ''Visual: '' @ description,
                 start_time = timestamp frame,
                 end_time = (case rest of
                               next_frame # _ \<Rightarrow> timestamp next_frame
                             | [] \<Rightarrow> timestamp frame + 5),
                 chunk_confidence = None,
                 speaker = None\<rparr>])
     @ pseudo_chunks video_id (Suc i) rest"

definition generate_pseudo_transcript_from_frames ::
  "vision_env \<Rightarrow> string \<Rightarrow> FrameData list \<Rightarrow> TranscriptChunk list" where
  "generate_pseudo_transcript_from_frames env video_id frames =
     (if frames = [] then []
      else let analyzed_frames = analyze_video_frames env frames in
           if analyzed_frames = [] then []
           else pseudo_chunks video_id 0 (sort_key timestamp analyzed_frames))"

text \<open>A frame with a description whose image file is gone, and two frames on disk.\<close>

definition lost_frame :: FrameData where
  "lost_frame =
     \<lparr>frame_id = ''v_frame_0'', frame_path = ''storage/v/frames/frame_0000_0.00.jpg'',
      timestamp = 0, scene_description = Some ''A person at a desk'',
      objects_detected = [], confidence_scores = []\<rparr>"

definition no_files :: vision_env where
  "no_files =
     \<lparr>vision_model_available = True, path_exists = (\<lambda>p. False),
      vision_generate = (\<lambda>p. Inr (Some ''A person at a desk''))\<rparr>"

definition all_files :: vision_env where
  "all_files =
     \<lparr>vision_model_available = True, path_exists = (\<lambda>p. True),
      vision_generate = (\<lambda>p. Inr (Some (''Scene of '' @ p)))\<rparr>"

definition two_frames :: "FrameData list" where
  "two_frames =
     [\<lparr>frame_id = ''v_frame_1'', frame_path = ''b.jpg'', timestamp = 12,
       scene_description = None, objects_detected = [], confidence_scores = []\<rparr>,
      \<lparr>frame_id = ''v_frame_0'', frame_path = ''a.jpg'', timestamp = 3,
       scene_description = None, objects_detected = [], confidence_scores = []\<rparr>]"

section \<open>Embedding capability (src/services/ai_service.py)\<close>

text \<open>
  \<^verbatim>\<open>generate_text_embeddings\<close> asks the embedding model for one vector per text, in order.
  When the model is not configured, or when any request raises, it returns a zero-vector
  of 384 entries for every text.
\<close>

record embed_env =
  embedding_model_available :: bool
  embed_content :: "string \<Rightarrow> error + real list"

fun embed_all :: "(string \<Rightarrow> error + real list) \<Rightarrow> string list \<Rightarrow> error + real list list" where
  "embed_all embed_one [] = Inr []"
| "embed_all embed_one (text_item # texts) =
     bind_result (embed_one text_item) (\<lambda>embedding.
     bind_result (embed_all embed_one texts) (\<lambda>embeddings. Inr (embedding # embeddings)))"

definition zero_vectors :: "string list \<Rightarrow> real list list" where
  "zero_vectors texts = map (\<lambda>_. replicate 384 0) texts"

definition generate_text_embeddings :: "embed_env \<Rightarrow> string list \<Rightarrow> real list list" where
  "generate_text_embeddings env texts =
     (if \<not> embedding_model_available env then zero_vectors texts
      else case embed_all (embed_content env) texts of
             Inl e \<Rightarrow> zero_vectors texts
           | Inr embeddings \<Rightarrow> embeddings)"

section \<open>Vector store (src/core/database.py)\<close>

text \<open>
  A query against the store names the query vectors, the number of results and an optional
  metadata filter, and returns a dictionary with the keys \<^verbatim>\<open>metadatas\<close>, \<^verbatim>\<open>documents\<close>
  and \<^verbatim>\<open>distances\<close>, each a list with one list of matches per query vector; a key may be
  absent. The query may raise. The store itself is a parameter.
\<close>

record query_results =
  metadatas :: "pydict list list option"
  documents :: "string list list option"
  distances :: "real list list option"

datatype where_cond = Equals string | In_list "string list"

type_synonym where_filter = "(string \<times> where_cond) list"

type_synonym query_embeddings_fn =
  "real list list \<Rightarrow> int \<Rightarrow> where_filter option \<Rightarrow> error + query_results"

text \<open>\<^verbatim>\<open>results[key][0]\<close>: the key may be missing and the list may be empty.\<close>

definition first_list :: "'a list list option \<Rightarrow> error + 'a list" where
  "first_list field =
     (case field of None \<Rightarrow> Inl KeyError | Some [] \<Rightarrow> Inl IndexError | Some (xs # _) \<Rightarrow> Inr xs)"

text \<open>
  One record of the bulk upsert: identifier, embedding, metadata and document. The source
  keeps four lists to which it appends in step; the embedding keeps one list of records.
\<close>

record index_record =
  record_id :: string
  record_embedding :: "real list"
  record_metadata :: pydict
  record_document :: string

section \<open>Validation of the pydantic models\<close>

text \<open>
  A constructor call passes keyword arguments. A field without default must be among
  them, otherwise the constructor raises \<^verbatim>\<open>ValidationError\<close>; keyword arguments that name
  no field are ignored. A string field takes a string and a float field a number; the
  conversion of numeric strings to floats is not embedded and matters to no call below.
\<close>

definition required_str :: "pydict \<Rightarrow> string \<Rightarrow> error + string" where
  "required_str kwargs field =
     (case kwargs field of Some (PStr s) \<Rightarrow> Inr s | _ \<Rightarrow> Inl ValidationError)"

definition required_float :: "pydict \<Rightarrow> string \<Rightarrow> error + real" where
  "required_float kwargs field =
     (case kwargs field of Some (PNum r) \<Rightarrow> Inr r | _ \<Rightarrow> Inl ValidationError)"


definition optional_float :: "pydict \<Rightarrow> string \<Rightarrow> error + real option" where
  "optional_float kwargs field =
     (case kwargs field of
        None \<Rightarrow> Inr None
      | Some PNone \<Rightarrow> Inr None
      | Some (PNum r) \<Rightarrow> Inr (Some r)
      | Some (PStr s) \<Rightarrow> Inl ValidationError)"

text \<open>
  \<^verbatim>\<open>SearchResult\<close> declares \<^verbatim>\<open>id\<close>, \<^verbatim>\<open>content\<close>, \<^verbatim>\<open>score\<close>, \<^verbatim>\<open>video_id\<close> and
  \<^verbatim>\<open>type\<close> without default, \<^verbatim>\<open>timestamp\<close> with default \<^verbatim>\<open>None\<close> and \<^verbatim>\<open>metadata\<close>
  with an empty dictionary as default; no call below passes \<^verbatim>\<open>metadata\<close>. It declares no
  field \<^verbatim>\<open>relevance_score\<close>.
\<close>

record SearchResult =
  result_id :: string
  content :: string
  score :: real
  result_timestamp :: "real option"
  result_video_id :: string
  result_type :: string
  result_metadata :: pydict

definition SearchResult_new :: "pydict \<Rightarrow> error + SearchResult" where
  "SearchResult_new kwargs =
     bind_result (required_str kwargs ''id'') (\<lambda>i.
     bind_result (required_str kwargs ''content'') (\<lambda>c.
     bind_result (required_float kwargs ''score'') (\<lambda>s.
     bind_result (optional_float kwargs ''timestamp'') (\<lambda>t.
     bind_result (required_str kwargs ''video_id'') (\<lambda>v.
     bind_result (required_str kwargs ''type'') (\<lambda>ty.
       Inr \<lparr>result_id = i, content = c, score = s, result_timestamp = t,
            result_video_id = v, result_type = ty, result_metadata = Map.empty\<rparr>))))))"



section \<open>Retrieval engine (src/services/rag_service.py)\<close>

text \<open>
  The functions of the retrieval engine take the embedding call \<open>gen\<close> and the store query
  \<open>db_query\<close> as parameters, each of which may raise. Every function body is a
  \<^verbatim>\<open>try\<close> block: \<open>_body\<close> is the block, and the function itself adds the handler
  \<^verbatim>\<open>except Exception\<close>, which logs and returns the empty result.
\<close>

text \<open>
  The loop over the matches of the first query vector, with the index of \<^verbatim>\<open>enumerate\<close>;
  the first exception ends the loop.
\<close>

fun for_each :: "(nat \<Rightarrow> 'a \<Rightarrow> error + 'b) \<Rightarrow> nat \<Rightarrow> 'a list \<Rightarrow> error + 'b list" where
  "for_each f i [] = Inr []"
| "for_each f i (x # xs) =
     bind_result (f i x) (\<lambda>y.
     bind_result (for_each f (Suc i) xs) (\<lambda>ys. Inr (y # ys)))"

definition search_result_at :: "query_results \<Rightarrow> nat \<Rightarrow> pydict \<Rightarrow> error + SearchResult" where
  "search_result_at results i metadata =
     bind_result (first_list (distances results)) (\<lambda>dists.
     bind_result (first_list (documents results)) (\<lambda>docs.
       (let distance = (if i < length dists then dists ! i else 1);
            document = (if i < length docs then docs ! i else []);
            relevance_score = max 0 (1 - distance);
            timestamp0 = dict_get metadata ''timestamp'' (PNum 0);
            timestamp1 = (case metadata ''start_time'' of
                            Some start \<Rightarrow> if \<not> truthy timestamp0 then start else timestamp0
                          | None \<Rightarrow> timestamp0)
        in SearchResult_new
             [''video_id'' \<mapsto> dict_get metadata ''video_id'' (PStr []),
              ''timestamp'' \<mapsto> timestamp1,
              ''relevance_score'' \<mapsto> PNum relevance_score,
              ''content_type'' \<mapsto> dict_get metadata ''content_type'' (PStr ''unknown''),
              ''content'' \<mapsto> PStr document,
              ''thumbnail_path'' \<mapsto> dict_get metadata ''thumbnail_path'' PNone,
              ''frame_path'' \<mapsto> dict_get metadata ''frame_path'' PNone])))"

text \<open>
  \<^verbatim>\<open>search_results.sort(key=lambda x: x.relevance_score, reverse=True)\<close>: the key function
  is applied to every element, and reading \<^verbatim>\<open>relevance_score\<close> from a \<^verbatim>\<open>SearchResult\<close>
  raises \<^verbatim>\<open>AttributeError\<close>; only the empty list is sorted without an exception.
\<close>

definition sort_by_relevance_score :: "SearchResult list \<Rightarrow> error + SearchResult list" where
  "sort_by_relevance_score search_results =
     (if search_results = [] then Inr [] else Inl AttributeError)"

definition search_similar_content_body ::
  "(string list \<Rightarrow> error + real list list) \<Rightarrow> query_embeddings_fn \<Rightarrow>
     string \<Rightarrow> string list option \<Rightarrow> string option \<Rightarrow> int \<Rightarrow> error + SearchResult list" where
  "search_similar_content_body gen db_query query video_ids content_type max_results =
     bind_result (gen [query]) (\<lambda>query_embeddings.
       (let where_filter =
              (case video_ids of
                 Some (v # vs) \<Rightarrow> [(''video_id'', In_list (v # vs))]
               | _ \<Rightarrow> []) @
              (case content_type of
                 Some (c # cs) \<Rightarrow> [(''content_type'', Equals (c # cs))]
               | _ \<Rightarrow> [])
        in bind_result
             (db_query query_embeddings max_results
                (if where_filter \<noteq> [] then Some where_filter else None)) (\<lambda>results.
           bind_result
             (case metadatas results of
                Some (first_metadatas # others) \<Rightarrow> for_each (search_result_at results) 0 first_metadatas
              | _ \<Rightarrow> Inr []) (\<lambda>search_results.
           sort_by_relevance_score search_results))))"

definition search_similar_content ::
  "(string list \<Rightarrow> error + real list list) \<Rightarrow> query_embeddings_fn \<Rightarrow>
     string \<Rightarrow> string list option \<Rightarrow> string option \<Rightarrow> int \<Rightarrow> error + SearchResult list" where
  "search_similar_content gen db_query query video_ids content_type max_results =
     (case search_similar_content_body gen db_query query video_ids content_type max_results of
        Inl e \<Rightarrow> Inr []
      | Inr search_results \<Rightarrow> Inr search_results)"







text \<open>A store that answers every query with one transcript match at distance 0.25.\<close>

definition one_match :: query_results where
  "one_match =
     \<lparr>metadatas = Some [ [ [''video_id'' \<mapsto> PStr ''v1'', ''content_type'' \<mapsto> PStr ''transcript'',
                           ''start_time'' \<mapsto> PNum 5, ''end_time'' \<mapsto> PNum 10,
                           ''chunk_id'' \<mapsto> PStr ''v1_transcript_0'']]],
      documents = Some [ [''hello'']],
      distances = Some [ [1 / 4]]\<rparr>"

section \<open>Content indexer (src/services/rag_service.py)\<close>

text \<open>
  \<^verbatim>\<open>frame.thumbnail_path\<close> in the metadata of a frame record: \<^verbatim>\<open>FrameData\<close> declares no
  such field, so reading the attribute raises.
\<close>

definition frame_thumbnail_path :: "FrameData \<Rightarrow> error + pyval" where
  "frame_thumbnail_path frame = Inl AttributeError"

definition transcript_record ::
  "string \<Rightarrow> nat \<Rightarrow> TranscriptChunk \<times> real list \<Rightarrow> error + index_record" where
  "transcript_record video_id i ce =
     (let chunk = fst ce; embedding = snd ce
      in Inr \<lparr>record_id = video_id @ ''_transcript_'' @ str_nat i,
              record_embedding = embedding,
              record_metadata =
                [''video_id'' \<mapsto> PStr video_id,
                 ''content_type'' \<mapsto> PStr ''transcript'',
                 ''start_time'' \<mapsto> PNum (start_time chunk),
                 ''end_time'' \<mapsto> PNum (end_time chunk),
                 ''chunk_id'' \<mapsto> PStr (chunk_id chunk)],
              record_document = chunk_text chunk\<rparr>)"

definition description_of :: "FrameData \<Rightarrow> string" where
  "description_of frame = (case scene_description frame of Some d \<Rightarrow> d | None \<Rightarrow> [])"

definition frame_record ::
  "string \<Rightarrow> nat \<Rightarrow> FrameData \<times> real list \<Rightarrow> error + index_record" where
  "frame_record video_id i fe =
     (let frame = fst fe; embedding = snd fe
      in bind_result (frame_thumbnail_path frame) (\<lambda>thumbnail_path.
           Inr \<lparr>record_id = video_id @ ''_frame_'' @ str_nat i,
                record_embedding = embedding,
                record_metadata =
                  [''video_id'' \<mapsto> PStr video_id,
                   ''content_type'' \<mapsto> PStr ''visual'',
                   ''timestamp'' \<mapsto> PNum (timestamp frame),
                   ''frame_id'' \<mapsto> PStr (frame_id frame),
                   ''frame_path'' \<mapsto> PStr (frame_path frame),
                   ''thumbnail_path'' \<mapsto> thumbnail_path],
                record_document = description_of frame\<rparr>))"

text \<open>
  \<^verbatim>\<open>index_video_content\<close>. \<open>db_add\<close> is the bulk upsert of the store: it returns the
  store with the records added, or raises and leaves the store as it was. The function
  returns its flag and the store.
\<close>

definition index_video_content_body ::
  "(string list \<Rightarrow> error + real list list) \<Rightarrow> ('store \<Rightarrow> index_record list \<Rightarrow> error + 'store) \<Rightarrow>
     'store \<Rightarrow> string \<Rightarrow> TranscriptChunk list \<Rightarrow> FrameData list \<Rightarrow> error + bool \<times> 'store" where
  "index_video_content_body gen db_add store video_id transcript_chunks frames =
     (let transcript_texts = map chunk_text transcript_chunks in
      bind_result
        (if transcript_texts \<noteq> [] then
           bind_result (gen transcript_texts) (\<lambda>transcript_embeddings.
             for_each (transcript_record video_id) 0 (zip transcript_chunks transcript_embeddings))
         else Inr []) (\<lambda>transcript_records.
      (let frame_data = filter described frames;
           frame_descriptions = map description_of frame_data in
       bind_result
         (if frame_descriptions \<noteq> [] then
            bind_result (gen frame_descriptions) (\<lambda>frame_embeddings.
              for_each (frame_record video_id) 0 (zip frame_data frame_embeddings))
          else Inr []) (\<lambda>frame_records.
       (let records = transcript_records @ frame_records in
        if records \<noteq> [] then
          bind_result (db_add store records) (\<lambda>store'. Inr (True, store'))
        else Inr (False, store))))))"

definition index_video_content ::
  "(string list \<Rightarrow> error + real list list) \<Rightarrow> ('store \<Rightarrow> index_record list \<Rightarrow> error + 'store) \<Rightarrow>
     'store \<Rightarrow> string \<Rightarrow> TranscriptChunk list \<Rightarrow> FrameData list \<Rightarrow> bool \<times> 'store" where
  "index_video_content gen db_add store video_id transcript_chunks frames =
     (case index_video_content_body gen db_add store video_id transcript_chunks frames of
        Inl e \<Rightarrow> (False, store)
      | Inr outcome \<Rightarrow> outcome)"

text \<open>
  An embedding capability without a configured model, a store that appends what it is
  given, a frame without description, a frame with one, and a transcript chunk.
\<close>

definition no_embedding_model :: embed_env where
  "no_embedding_model =
     \<lparr>embedding_model_available = False,
      embed_content = (\<lambda>t. Inl (CapabilityError ''no model''))\<rparr>"

definition append_records :: "index_record list \<Rightarrow> index_record list \<Rightarrow> error + index_record list" where
  "append_records store records = Inr (store @ records)"

definition plain_frame :: FrameData where
  "plain_frame =
     \<lparr>frame_id = ''v_frame_0'', frame_path = ''a.jpg'', timestamp = 3,
      scene_description = None, objects_detected = [], confidence_scores = []\<rparr>"

definition described_frame :: FrameData where
  "described_frame =
     \<lparr>frame_id = ''v_frame_1'', frame_path = ''b.jpg'', timestamp = 12,
      scene_description = Some ''A whiteboard'', objects_detected = [], confidence_scores = []\<rparr>"

definition hello_chunk :: TranscriptChunk where
  "hello_chunk =
     \<lparr>chunk_id = ''v_transcript_0'', chunk_text = ''hello'', start_time = 0, end_time = 5,
      chunk_confidence = None, speaker = None\<rparr>"

section \<open>Ingestion pipeline (src/api/routes/videos.py)\<close>

text \<open>
  The pipeline writes the tracker entry of its video in three ways: it assigns a new
  entry, it updates some keys of the entry (\<^verbatim>\<open>.update({...})\<close>), or it sets the progress
  alone. The embedding of the pipeline is the list of these writes, in order.
\<close>

datatype tracker_write =
    Assign status_entry
  | Update "real option" "string option" "string option"
  | Set_progress real










definition path_of :: "VideoMetadata \<Rightarrow> string" where
  "path_of metadata = (case file_path metadata of Some p \<Rightarrow> p | None \<Rightarrow> [])"




text \<open>
  Chapter synthesis. \<^verbatim>\<open>VideoProcessor.generate_video_chapters\<close> is declared with the
  parameters \<^verbatim>\<open>(self, video_id, transcript_chunks=None)\<close> and the pipeline calls it with
  three arguments, so the call raises \<^verbatim>\<open>TypeError\<close> before the body runs. The other
  branch calls \<^verbatim>\<open>generate_chapters_from_transcript\<close>, an attribute that
  \<^verbatim>\<open>VideoProcessor\<close> does not have (its method is \<^verbatim>\<open>_generate_chapters_from_transcript\<close>),
  so it raises \<^verbatim>\<open>AttributeError\<close>.
\<close>

record VideoChapter =
  chapter_id :: string
  title :: string
  chapter_start :: real
  chapter_end :: real
  description :: "string option"

definition call_generate_video_chapters ::
  "string \<Rightarrow> string \<Rightarrow> TranscriptChunk list \<Rightarrow> error + VideoChapter list" where
  "call_generate_video_chapters path video_id transcript_chunks = Inl TypeError"

definition call_generate_chapters_from_transcript ::
  "string \<Rightarrow> TranscriptChunk list \<Rightarrow> error + VideoChapter list" where
  "call_generate_chapters_from_transcript video_id transcript_chunks = Inl AttributeError"

definition chapter_stage ::
  "string \<Rightarrow> VideoMetadata \<Rightarrow> TranscriptChunk list \<Rightarrow> error + VideoChapter list" where
  "chapter_stage video_id metadata transcript_chunks =
     (if video_status metadata \<noteq> TRANSCRIPT_ONLY \<and> path_of metadata \<noteq> []
      then call_generate_video_chapters (path_of metadata) video_id transcript_chunks
      else call_generate_chapters_from_transcript video_id transcript_chunks)"

text \<open>
  The writes after chapter synthesis, for an outcome of the chapter stage. An exception
  anywhere in the pipeline reaches the handler, which assigns the entry of the failed
  run. Indexing, summary generation, thumbnail creation, the update of the durable record
  and the cleanup handle their own exceptions and do not write the tracker.
\<close>

definition final_stage ::
  "error + VideoChapter list \<Rightarrow> TranscriptChunk list \<Rightarrow> tracker_write list" where
  "final_stage chapters transcript_chunks =
     (case chapters of
        Inl e \<Rightarrow>
          [Assign \<lparr>status = ''failed'', progress = 0,
                   message = Some (''Processing failed: '' @ str_error e), note_opt = None\<rparr>]
      | Inr chs \<Rightarrow>
          [Update (Some (8 / 10)) (Some ''Creating embeddings and indexing...'') None] @
          (if transcript_chunks = []
           then [Update None None
                   (Some ''No transcripts were found for this video. Limited search capabilities may be available based on visual content.'')]
           else []) @
          [Update (Some (9 / 10)) (Some ''Generating summary...'') None,
           Assign \<lparr>status = ''completed'', progress = 1,
                   message = Some ''Video processing completed successfully'',
                   note_opt = None\<rparr>])"









definition keeps_status :: "tracker_write \<Rightarrow> bool" where
  "keeps_status w = (case w of Assign entry \<Rightarrow> False | _ \<Rightarrow> True)"

section \<open>Theorems\<close>

lemma bind_result_Inr:
  "bind_result m f = Inr y \<longleftrightarrow> (\<exists>x. m = Inr x \<and> f x = Inr y)"
  by (cases m) (simp_all add: bind_result_def)

lemma bind_result_Inl:
  "bind_result m f = Inl e \<longleftrightarrow> (m = Inl e \<or> (\<exists>x. m = Inr x \<and> f x = Inl e))"
  by (cases m) (simp_all add: bind_result_def)

lemma bind_result_simps [simp]:
  "bind_result (Inl e) f = Inl e"
  "bind_result (Inr x) f = f x"
  by (simp_all add: bind_result_def)


subsection \<open>Video-identifier resolution\<close>

lemma startswith_iff: "startswith s p \<longleftrightarrow> (\<exists>rest. s = p @ rest)"
  unfolding startswith_def
  by (metis append_eq_conv_conj append_take_drop_id)

lemma Some_in_video_ids:
  "Some i \<in> set (map (\<lambda>v. v ''video_id'') avail) \<longleftrightarrow> i \<in> available_ids avail"
  unfolding available_ids_def by (auto simp: image_iff) metis

text \<open>
  C7. Resolution of a requested video identifier against the available identifiers:
  the requested identifier itself when it is available; otherwise the identifier with
  the prefix \<open>youtube_\<close> prepended when that is available; otherwise, when the requested
  identifier starts with the prefix, the identifier with the prefix stripped when that is
  available; otherwise no match.
\<close>

theorem video_id_resolution:
  "(req \<in> available_ids avail \<longrightarrow> get_video_id_match req avail = Some req) \<and>
   (req \<notin> available_ids avail \<and> ''youtube_'' @ req \<in> available_ids avail \<longrightarrow>
      get_video_id_match req avail = Some (''youtube_'' @ req)) \<and>
   (req \<notin> available_ids avail \<and> ''youtube_'' @ req \<notin> available_ids avail \<and>
    req = ''youtube_'' @ rest \<and> rest \<in> available_ids avail \<longrightarrow>
      get_video_id_match req avail = Some rest) \<and>
   (req \<notin> available_ids avail \<and> ''youtube_'' @ req \<notin> available_ids avail \<and>
    (\<forall>r. req = ''youtube_'' @ r \<longrightarrow> r \<notin> available_ids avail) \<longrightarrow>
      get_video_id_match req avail = None)"
proof -
  have strip: "drop 8 (''youtube_'' @ r) = r" for r :: string by simp
  show ?thesis
    unfolding get_video_id_match_def Let_def Some_in_video_ids startswith_iff
    by (auto simp: strip)
qed

theorem video_id_resolution_witness:
  "get_video_id_match ''abc'' [ [''video_id'' \<mapsto> ''abc''], [''video_id'' \<mapsto> ''youtube_abc'']] = Some ''abc'' \<and>
   get_video_id_match ''abc'' [ [''video_id'' \<mapsto> ''youtube_abc'']] = Some ''youtube_abc'' \<and>
   get_video_id_match ''youtube_abc'' [ [''status'' \<mapsto> ''processed''], [''video_id'' \<mapsto> ''abc'']] = Some ''abc'' \<and>
   get_video_id_match ''abc'' [ [''video_id'' \<mapsto> ''xyz'']] = None"
proof -
  have a: "available_ids [ [''video_id'' \<mapsto> ''abc''], [''video_id'' \<mapsto> ''youtube_abc'']] = {''abc'', ''youtube_abc''}"
    by (auto simp: available_ids_def)
  have b: "available_ids [ [''video_id'' \<mapsto> ''youtube_abc'']] = {''youtube_abc''}"
    by (auto simp: available_ids_def)
  have c: "available_ids [ [''status'' \<mapsto> ''processed''], [''video_id'' \<mapsto> ''abc'']] = {''abc''}"
    by (auto simp: available_ids_def)
  have d: "available_ids [ [''video_id'' \<mapsto> ''xyz'']] = {''xyz''}"
    by (auto simp: available_ids_def)
  have 1: "get_video_id_match ''abc'' [ [''video_id'' \<mapsto> ''abc''], [''video_id'' \<mapsto> ''youtube_abc'']] = Some ''abc''"
    using video_id_resolution [of "''abc''" "[ [''video_id'' \<mapsto> ''abc''], [''video_id'' \<mapsto> ''youtube_abc'']]"]
    by (simp add: a)
  have 2: "get_video_id_match ''abc'' [ [''video_id'' \<mapsto> ''youtube_abc'']] = Some ''youtube_abc''"
    using video_id_resolution [of "''abc''" "[ [''video_id'' \<mapsto> ''youtube_abc'']]"]
    by (simp add: b)
  have 3: "get_video_id_match ''youtube_abc'' [ [''status'' \<mapsto> ''processed''], [''video_id'' \<mapsto> ''abc'']] = Some ''abc''"
    using video_id_resolution [of "''youtube_abc''" "[ [''status'' \<mapsto> ''processed''], [''video_id'' \<mapsto> ''abc'']]" "''abc''"]
    by (simp add: c)
  have 4: "get_video_id_match ''abc'' [ [''video_id'' \<mapsto> ''xyz'']] = None"
    using video_id_resolution [of "''abc''" "[ [''video_id'' \<mapsto> ''xyz'']]"]
    by (simp add: d)
  show ?thesis using 1 2 3 4 by simp
qed

subsection \<open>Status synthesized from the durable record\<close>

text \<open>
  C9. When the tracker has no entry for the video and the durable metadata record exists,
  the status endpoint synthesizes an entry from the persisted status: \<open>processing\<close>
  gives status \<open>processing\<close> with progress 0.5; every other persisted status, so every
  terminal one, gives progress 1.0 (with status \<open>completed\<close>). The entry is stored in
  the tracker.
\<close>

theorem status_synthesized_from_metadata:
  assumes "processing_status video_id = None"
    and "stored video_id = Some (Inr metadata_dict)"
  shows "(metadata_dict ''status'' = Some ''processing'' \<longrightarrow>
            get_processing_status video_id processing_status stored =
              (Inr \<lparr>ps_video_id = video_id, ps_status = ''processing'', ps_progress = 1 / 2,
                     ps_message = Some ''Video is available'', ps_note = None\<rparr>,
               processing_status(video_id \<mapsto>
                 \<lparr>status = ''processing'', progress = 1 / 2,
                  message = Some ''Video is available'', note_opt = None\<rparr>))) \<and>
         (metadata_dict ''status'' \<noteq> Some ''processing'' \<longrightarrow>
            get_processing_status video_id processing_status stored =
              (Inr \<lparr>ps_video_id = video_id, ps_status = ''completed'', ps_progress = 1,
                     ps_message = Some ''Video is available'', ps_note = None\<rparr>,
               processing_status(video_id \<mapsto>
                 \<lparr>status = ''completed'', progress = 1,
                  message = Some ''Video is available'', note_opt = None\<rparr>)))"
  using assms
  by (simp add: get_processing_status_def ProcessingStatus_new_def Let_def)

theorem status_synthesized_from_metadata_witness:
  "get_processing_status ''v1'' Map.empty
      (\<lambda>v. if v = ''v1'' then Some (Inr [''status'' \<mapsto> ''processing'']) else None) =
     (Inr \<lparr>ps_video_id = ''v1'', ps_status = ''processing'', ps_progress = 1 / 2,
            ps_message = Some ''Video is available'', ps_note = None\<rparr>,
      [''v1'' \<mapsto> \<lparr>status = ''processing'', progress = 1 / 2,
                  message = Some ''Video is available'', note_opt = None\<rparr>]) \<and>
   get_processing_status ''v2'' Map.empty
      (\<lambda>v. if v = ''v2'' then Some (Inr [''status'' \<mapsto> ''failed'']) else None) =
     (Inr \<lparr>ps_video_id = ''v2'', ps_status = ''completed'', ps_progress = 1,
            ps_message = Some ''Video is available'', ps_note = None\<rparr>,
      [''v2'' \<mapsto> \<lparr>status = ''completed'', progress = 1,
                  message = Some ''Video is available'', note_opt = None\<rparr>])"
proof -
  have 1: "get_processing_status ''v1'' Map.empty
      (\<lambda>v. if v = ''v1'' then Some (Inr [''status'' \<mapsto> ''processing'']) else None) =
     (Inr \<lparr>ps_video_id = ''v1'', ps_status = ''processing'', ps_progress = 1 / 2,
            ps_message = Some ''Video is available'', ps_note = None\<rparr>,
      [''v1'' \<mapsto> \<lparr>status = ''processing'', progress = 1 / 2,
                  message = Some ''Video is available'', note_opt = None\<rparr>])"
    using status_synthesized_from_metadata
            [of Map.empty "''v1''"
                "\<lambda>v. if v = ''v1'' then Some (Inr [''status'' \<mapsto> ''processing'']) else None"
                "[''status'' \<mapsto> ''processing'']"]
    by simp
  have 2: "get_processing_status ''v2'' Map.empty
      (\<lambda>v. if v = ''v2'' then Some (Inr [''status'' \<mapsto> ''failed'']) else None) =
     (Inr \<lparr>ps_video_id = ''v2'', ps_status = ''completed'', ps_progress = 1,
            ps_message = Some ''Video is available'', ps_note = None\<rparr>,
      [''v2'' \<mapsto> \<lparr>status = ''completed'', progress = 1,
                  message = Some ''Video is available'', note_opt = None\<rparr>])"
    using status_synthesized_from_metadata
            [of Map.empty "''v2''"
                "\<lambda>v. if v = ''v2'' then Some (Inr [''status'' \<mapsto> ''failed'']) else None"
                "[''status'' \<mapsto> ''failed'']"]
    by simp
  show ?thesis using 1 2 by simp
qed

subsection \<open>Caption normalization\<close>

lemma entry_chunk_Inr:
  assumes "entry_chunk float_of_str video_id i entry = Inr c"
  shows "\<exists>s d. py_strip (dict_get entry ''text'' (PStr [])) = Inr (chunk_text c) \<and>
           py_float float_of_str (dict_get entry ''start'' (PNum 0)) = Inr s \<and>
           py_float float_of_str (dict_get entry ''duration'' (PNum 0)) = Inr d \<and>
           chunk_id c = video_id @ ''_transcript_'' @ str_nat i \<and>
           start_time c = s \<and> end_time c = s + d"
  using assms unfolding entry_chunk_def bind_result_Inr by auto

lemma convert_entries_sound:
  "c \<in> set (convert_entries float_of_str video_id i entries) \<Longrightarrow>
   \<exists>k < length entries.
      entry_chunk float_of_str video_id (i + k) (entries ! k) = Inr c \<and> chunk_text c \<noteq> []"
proof (induction entries arbitrary: i)
  case Nil
  then show ?case by simp
next
  case (Cons entry rest)
  show ?case
  proof (cases "entry_chunk float_of_str video_id i entry = Inr c \<and> chunk_text c \<noteq> []")
    case True
    then have "entry_chunk float_of_str video_id (i + 0) ((entry # rest) ! 0) = Inr c \<and>
               chunk_text c \<noteq> []" by simp
    then show ?thesis by blast
  next
    case False
    with Cons.prems have "c \<in> set (convert_entries float_of_str video_id (Suc i) rest)"
      by (auto split: sum.splits if_splits)
    from Cons.IH [OF this] obtain k where
      "k < length rest"
      "entry_chunk float_of_str video_id (Suc i + k) (rest ! k) = Inr c \<and> chunk_text c \<noteq> []"
      by blast
    then have "Suc k < length (entry # rest) \<and>
               entry_chunk float_of_str video_id (i + Suc k) ((entry # rest) ! Suc k) = Inr c \<and>
               chunk_text c \<noteq> []" by simp
    then show ?thesis by blast
  qed
qed

lemma convert_entries_complete:
  "k < length entries \<Longrightarrow>
   entry_chunk float_of_str video_id (i + k) (entries ! k) = Inr c \<Longrightarrow> chunk_text c \<noteq> [] \<Longrightarrow>
   c \<in> set (convert_entries float_of_str video_id i entries)"
proof (induction entries arbitrary: i k)
  case Nil
  then show ?case by simp
next
  case (Cons entry rest)
  show ?case
  proof (cases k)
    case 0
    with Cons.prems show ?thesis by simp
  next
    case (Suc j)
    with Cons.prems have "j < length rest"
      and "entry_chunk float_of_str video_id (Suc i + j) (rest ! j) = Inr c" by simp_all
    from Cons.IH [OF this \<open>chunk_text c \<noteq> []\<close>]
    show ?thesis by (simp split: sum.splits)
  qed
qed

text \<open>
  C5. Caption normalization. Every chunk that \<open>extract_youtube_transcript\<close> produces has a
  non-empty text, which is the stripped text of the provider entry it comes from (so an
  entry whose stripped text is empty yields no chunk); its start is the entry's start
  (0 when absent) and its end is the start plus the entry's duration (0 when absent);
  hence a non-negative duration gives \<open>start_time \<le> end_time\<close>. Conversely every entry
  that converts to a chunk with non-empty text is kept.
\<close>

theorem caption_normalization:
  "(\<forall>c \<in> set (extract_youtube_transcript available get_best_transcript float_of_str url video_id).
      chunk_text c \<noteq> [] \<and>
      (\<exists>yt_video_id transcript_list k s d.
          search_video_id url = Some yt_video_id \<and>
          get_best_transcript yt_video_id = Inr transcript_list \<and>
          k < length transcript_list \<and>
          chunk_id c = video_id @ ''_transcript_'' @ str_nat k \<and>
          py_strip (dict_get (transcript_list ! k) ''text'' (PStr [])) = Inr (chunk_text c) \<and>
          py_float float_of_str (dict_get (transcript_list ! k) ''start'' (PNum 0)) = Inr s \<and>
          py_float float_of_str (dict_get (transcript_list ! k) ''duration'' (PNum 0)) = Inr d \<and>
          start_time c = s \<and> end_time c = s + d \<and>
          (0 \<le> d \<longrightarrow> start_time c \<le> end_time c))) \<and>
   (\<forall>yt_video_id transcript_list k c.
      available \<and> search_video_id url = Some yt_video_id \<and>
      get_best_transcript yt_video_id = Inr transcript_list \<and> k < length transcript_list \<and>
      entry_chunk float_of_str video_id k (transcript_list ! k) = Inr c \<and> chunk_text c \<noteq> [] \<longrightarrow>
      c \<in> set (extract_youtube_transcript available get_best_transcript float_of_str url video_id))"
proof (intro conjI ballI allI impI)
  fix c
  assume c: "c \<in> set (extract_youtube_transcript available get_best_transcript float_of_str
                        url video_id)"
  then have "\<exists>yt transcript_list. search_video_id url = Some yt \<and>
      get_best_transcript yt = Inr transcript_list \<and>
      c \<in> set (convert_entries float_of_str video_id 0 transcript_list)"
    by (auto simp: extract_youtube_transcript_def split: if_splits option.splits sum.splits)
       metis
  then obtain yt transcript_list where
    yt: "search_video_id url = Some yt" and
    tl: "get_best_transcript yt = Inr transcript_list" and
    mem: "c \<in> set (convert_entries float_of_str video_id 0 transcript_list)"
    by blast
  from convert_entries_sound [OF mem] obtain k where
    k: "k < length transcript_list" and
    ec: "entry_chunk float_of_str video_id k (transcript_list ! k) = Inr c" and
    ne: "chunk_text c \<noteq> []"
    by auto
  from entry_chunk_Inr [OF ec] obtain s d where
    "py_strip (dict_get (transcript_list ! k) ''text'' (PStr [])) = Inr (chunk_text c)"
    "py_float float_of_str (dict_get (transcript_list ! k) ''start'' (PNum 0)) = Inr s"
    "py_float float_of_str (dict_get (transcript_list ! k) ''duration'' (PNum 0)) = Inr d"
    "chunk_id c = video_id @ ''_transcript_'' @ str_nat k"
    "start_time c = s" "end_time c = s + d"
    by blast
  with yt tl k show "\<exists>yt_video_id transcript_list k s d.
          search_video_id url = Some yt_video_id \<and>
          get_best_transcript yt_video_id = Inr transcript_list \<and>
          k < length transcript_list \<and>
          chunk_id c = video_id @ ''_transcript_'' @ str_nat k \<and>
          py_strip (dict_get (transcript_list ! k) ''text'' (PStr [])) = Inr (chunk_text c) \<and>
          py_float float_of_str (dict_get (transcript_list ! k) ''start'' (PNum 0)) = Inr s \<and>
          py_float float_of_str (dict_get (transcript_list ! k) ''duration'' (PNum 0)) = Inr d \<and>
          start_time c = s \<and> end_time c = s + d \<and>
          (0 \<le> d \<longrightarrow> start_time c \<le> end_time c)"
    by (intro exI [of _ yt] exI [of _ transcript_list] exI [of _ k] exI [of _ s] exI [of _ d]) simp
  from ne show "chunk_text c \<noteq> []" .
next
  fix yt transcript_list k c
  assume a: "available \<and> search_video_id url = Some yt \<and>
      get_best_transcript yt = Inr transcript_list \<and> k < length transcript_list \<and>
      entry_chunk float_of_str video_id k (transcript_list ! k) = Inr c \<and> chunk_text c \<noteq> []"
  then have "transcript_list \<noteq> []" by auto
  moreover from a have "c \<in> set (convert_entries float_of_str video_id 0 transcript_list)"
    using convert_entries_complete [of k transcript_list float_of_str video_id 0 c] by simp
  ultimately show "c \<in> set (extract_youtube_transcript available get_best_transcript float_of_str
                             url video_id)"
    using a by (simp add: extract_youtube_transcript_def)
qed

lemma example_captions_transcript:
  "extract_youtube_transcript True (\<lambda>_. Inr example_captions) (\<lambda>_. None)
       ''https://youtu.be/dQw4w9WgXcQ'' ''v1'' =
     [\<lparr>chunk_id = ''v1_transcript_0'', chunk_text = ''hi'', start_time = 1, end_time = 3,
       chunk_confidence = None, speaker = None\<rparr>,
      \<lparr>chunk_id = ''v1_transcript_2'', chunk_text = ''yo'', start_time = 4, end_time = 4,
       chunk_confidence = None, speaker = None\<rparr>]"
  by (simp add: extract_youtube_transcript_def match_video_id_def id11_def is_id_char_def
        example_captions_def entry_chunk_def bind_result_def py_strip_def py_float_def
        dict_get_def strip_def py_isspace_def str_nat.simps digit_char_def)

theorem caption_normalization_witness:
  "\<lparr>chunk_id = ''v1_transcript_0'', chunk_text = ''hi'', start_time = 1, end_time = 3,
     chunk_confidence = None, speaker = None\<rparr>
     \<in> set (extract_youtube_transcript True (\<lambda>_. Inr example_captions) (\<lambda>_. None)
              ''https://youtu.be/dQw4w9WgXcQ'' ''v1'') \<and>
   chunk_text \<lparr>chunk_id = ''v1_transcript_0'', chunk_text = ''hi'', start_time = 1, end_time = 3,
     chunk_confidence = None, speaker = None\<rparr> \<noteq> [] \<and>
   length (extract_youtube_transcript True (\<lambda>_. Inr example_captions) (\<lambda>_. None)
              ''https://youtu.be/dQw4w9WgXcQ'' ''v1'') = 2"
proof -
  let ?c = "\<lparr>chunk_id = ''v1_transcript_0'', chunk_text = ''hi'', start_time = 1, end_time = 3,
     chunk_confidence = None, speaker = None\<rparr>"
  let ?r = "extract_youtube_transcript True (\<lambda>_. Inr example_captions) (\<lambda>_. None)
              ''https://youtu.be/dQw4w9WgXcQ'' ''v1''"
  have mem: "?c \<in> set ?r" by (simp add: example_captions_transcript)
  have "\<forall>c \<in> set ?r. chunk_text c \<noteq> []"
    using caption_normalization [of True "\<lambda>_. Inr example_captions" "\<lambda>_. None"
            "''https://youtu.be/dQw4w9WgXcQ''" "''v1''"]
    by blast
  with mem have "chunk_text ?c \<noteq> []" by blast
  moreover have "length ?r = 2" by (simp add: example_captions_transcript)
  ultimately show ?thesis using mem by blast
qed

subsection \<open>Timestamp extraction\<close>

lemma match_seconds_Some:
  "match_seconds s = Some (sec, rest) \<longleftrightarrow>
   (\<exists>s1 s2. is_digit s1 \<and> is_digit s2 \<and> sec = [s1, s2] \<and> s = CHR '':'' # s1 # s2 # CHR '']'' # rest)"
  by (auto simp: match_seconds_def split: list.splits if_splits)

lemma not_digit_colon: "\<not> is_digit CHR '':''"
  by (simp add: is_digit_def)

lemma not_digit_bracket: "\<not> is_digit CHR ''[''"
  by (simp add: is_digit_def)

lemma match_timestamp_occurrence:
  assumes "is_occurrence m s occ"
  shows "match_timestamp (occ @ post) = Some ((m, s), post)"
proof -
  from assms obtain s1 s2 where s: "s = [s1, s2]" "is_digit s1" "is_digit s2"
    by (cases s; cases "tl s") (auto simp: is_occurrence_def)
  have sec: "match_seconds (CHR '':'' # s1 # s2 # CHR '']'' # post) = Some ([s1, s2], post)"
    using s by (simp add: match_seconds_Some)
  from assms consider (one) m1 where "m = [m1]" "is_digit m1"
    | (two) m1 m2 where "m = [m1, m2]" "is_digit m1" "is_digit m2"
    by (cases m; cases "tl m") (auto simp: is_occurrence_def)
  then show ?thesis
  proof cases
    case one
    with assms s have "occ @ post = CHR ''['' # m1 # CHR '':'' # s1 # s2 # CHR '']'' # post"
      by (simp add: is_occurrence_def)
    then show ?thesis
      using one s sec by (simp add: match_timestamp_def not_digit_colon)
  next
    case two
    with assms s have "occ @ post = CHR ''['' # m1 # m2 # CHR '':'' # s1 # s2 # CHR '']'' # post"
      by (simp add: is_occurrence_def)
    then show ?thesis
      using two s sec by (simp add: match_timestamp_def)
  qed
qed

lemma match_timestamp_Some:
  assumes "match_timestamp str = Some ((m, sec), rest)"
  shows "\<exists>occ. is_occurrence m sec occ \<and> str = occ @ rest"
proof -
  from assms obtain m1 r1 where str: "str = CHR ''['' # m1 # r1" and m1: "is_digit m1"
    by (auto simp: match_timestamp_def split: list.splits if_splits)
  let ?two = "(case r1 of
                 m2 # r2 \<Rightarrow>
                   if is_digit m2
                   then map_option (\<lambda>(sec, rest). (([m1, m2], sec), rest)) (match_seconds r2)
                   else None
               | [] \<Rightarrow> None)"
  show ?thesis
  proof (cases ?two)
    case None
    with assms str m1
    have "map_option (\<lambda>(sec, rest). (([m1], sec), rest)) (match_seconds r1) = Some ((m, sec), rest)"
      by (simp add: match_timestamp_def)
    then have "m = [m1]" and "match_seconds r1 = Some (sec, rest)" by auto
    then obtain s1 s2 where "is_digit s1" "is_digit s2" "sec = [s1, s2]"
      "r1 = CHR '':'' # s1 # s2 # CHR '']'' # rest"
      by (auto simp: match_seconds_Some)
    with str m1 \<open>m = [m1]\<close>
    have "is_occurrence m sec (''['' @ m @ '':'' @ sec @ '']'') \<and>
          str = (''['' @ m @ '':'' @ sec @ '']'') @ rest"
      by (simp add: is_occurrence_def)
    then show ?thesis by blast
  next
    case (Some res)
    with assms str m1 have res: "res = ((m, sec), rest)"
      by (simp add: match_timestamp_def)
    from Some obtain m2 r2 where r1: "r1 = m2 # r2" and m2: "is_digit m2"
      and "map_option (\<lambda>(sec, rest). (([m1, m2], sec), rest)) (match_seconds r2) = Some res"
      by (auto split: list.splits if_splits)
    with res have "m = [m1, m2]" and "match_seconds r2 = Some (sec, rest)" by auto
    then obtain s1 s2 where "is_digit s1" "is_digit s2" "sec = [s1, s2]"
      "r2 = CHR '':'' # s1 # s2 # CHR '']'' # rest"
      by (auto simp: match_seconds_Some)
    with str r1 m1 m2 \<open>m = [m1, m2]\<close>
    have "is_occurrence m sec (''['' @ m @ '':'' @ sec @ '']'') \<and>
          str = (''['' @ m @ '':'' @ sec @ '']'') @ rest"
      by (simp add: is_occurrence_def)
    then show ?thesis by blast
  qed
qed

lemma occurrence_shape:
  assumes "is_occurrence m s occ"
  shows "\<exists>body. occ = CHR ''['' # body \<and> CHR ''['' \<notin> set body"
proof -
  have d: "list_all is_digit xs \<Longrightarrow> CHR ''['' \<notin> set xs" for xs
    using not_digit_bracket by (auto simp: list_all_iff)
  from assms have "occ = CHR ''['' # (m @ '':'' @ s @ '']'')"
    by (simp add: is_occurrence_def)
  moreover from assms have "CHR ''['' \<notin> set (m @ '':'' @ s @ '']'')"
    using d [of m] d [of s] by (simp add: is_occurrence_def)
  ultimately show ?thesis by blast
qed

lemma findall_timestamps_complete:
  assumes "is_occurrence m s occ"
  shows "(m, s) \<in> set (findall_timestamps (pre @ occ @ post))"
proof (induction pre rule: length_induct)
  case (1 pre)
  from occurrence_shape [OF assms] obtain body where
    occ: "occ = CHR ''['' # body" by blast
  show ?case
  proof (cases pre)
    case Nil
    have "match_timestamp (occ @ post) = Some ((m, s), post)"
      by (rule match_timestamp_occurrence [OF assms])
    with Nil occ show ?thesis by simp
  next
    case (Cons c pre')
    show ?thesis
    proof (cases "match_timestamp (c # pre' @ occ @ post)")
      case None
      moreover have "(m, s) \<in> set (findall_timestamps (pre' @ occ @ post))"
        using 1 Cons by simp
      ultimately show ?thesis using Cons by simp
    next
      case (Some res)
      obtain m' s' rest where res: "res = ((m', s'), rest)" by (metis surj_pair)
      from match_timestamp_Some [OF Some [unfolded res]] obtain occ' where
        occ': "is_occurrence m' s' occ'" and eq: "c # pre' @ occ @ post = occ' @ rest" by blast
      from occurrence_shape [OF occ'] obtain body' where
        b': "occ' = CHR ''['' # body'" and nb: "CHR ''['' \<notin> set body'" by blast
      from eq b' have "body' @ rest = pre' @ (occ @ post)" by simp
      then consider (a) us where "body' = pre' @ us" "us @ rest = occ @ post"
        | (b) us where "body' @ us = pre'" "rest = us @ occ @ post"
        by (auto simp: append_eq_append_conv2)
      then have "\<exists>pre''. rest = pre'' @ occ @ post \<and> length pre'' < length pre"
      proof cases
        case a
        have "us = []"
        proof (rule ccontr)
          assume "us \<noteq> []"
          with a(2) occ have "hd us = CHR ''[''" by (cases us) auto
          with \<open>us \<noteq> []\<close> a(1) nb show False by (cases us) auto
        qed
        with a(2) have "rest = [] @ occ @ post" by simp
        with Cons show ?thesis by (intro exI [of _ "[]"]) simp
      next
        case b
        then have "length us < length pre" using Cons by auto
        with b(2) show ?thesis by blast
      qed
      then obtain pre'' where "rest = pre'' @ occ @ post" "length pre'' < length pre" by blast
      with 1 have "(m, s) \<in> set (findall_timestamps rest)" by simp
      with Some res Cons show ?thesis by simp
    qed
  qed
qed

lemma findall_timestamps_sound:
  "(m, s) \<in> set (findall_timestamps response) \<Longrightarrow>
   \<exists>pre occ post. is_occurrence m s occ \<and> response = pre @ occ @ post"
proof (induction response rule: findall_timestamps.induct)
  case 1
  then show ?case by simp
next
  case (2 c cs)
  show ?case
  proof (cases "match_timestamp (c # cs)")
    case None
    with 2 obtain pre occ post where "is_occurrence m s occ" "cs = pre @ occ @ post"
      by auto
    then have "is_occurrence m s occ \<and> c # cs = (c # pre) @ occ @ post" by simp
    then show ?thesis by blast
  next
    case (Some res)
    obtain m' s' rest where res: "res = ((m', s'), rest)" by (metis surj_pair)
    from match_timestamp_Some [OF Some [unfolded res]] obtain occ' where
      occ': "is_occurrence m' s' occ'" and eq: "c # cs = occ' @ rest" by blast
    from "2.prems" Some res have "(m, s) = (m', s') \<or> (m, s) \<in> set (findall_timestamps rest)"
      by simp
    then show ?thesis
    proof
      assume "(m, s) = (m', s')"
      with occ' eq have "is_occurrence m s occ' \<and> c # cs = [] @ occ' @ rest" by simp
      then show ?thesis by blast
    next
      assume mem: "(m, s) \<in> set (findall_timestamps rest)"
      have "\<exists>pre occ post. is_occurrence m s occ \<and> rest = pre @ occ @ post"
        using "2.IH"(2) Some res mem by blast
      then obtain pre occ post where
        "is_occurrence m s occ" "rest = pre @ occ @ post" by blast
      with eq have "is_occurrence m s occ \<and> c # cs = (occ' @ pre) @ occ @ post" by simp
      then show ?thesis by blast
    qed
  qed
qed

lemma min_by_key_least:
  "min_by_key key best xs \<in> set (best # xs) \<and>
   (\<forall>y \<in> set (best # xs). key (min_by_key key best xs) \<le> key y)"
proof (induction xs arbitrary: best)
  case Nil
  then show ?case by simp
next
  case (Cons x xs)
  from Cons [of "if key x < key best then x else best"]
  show ?case by (auto split: if_splits intro: order_trans less_imp_le)
qed

lemma min_by_key_closest:
  "is_closest (a # as) t (min_by_key (\<lambda>x. \<bar>x - t\<bar>) a as)"
  unfolding is_closest_def using min_by_key_least [of "\<lambda>x. \<bar>x - t\<bar>" a as] by simp

lemma collect_timestamps_sound:
  "x \<in> set (collect_timestamps available matches) \<Longrightarrow>
   \<exists>match \<in> set matches. is_closest available (seconds_of match) x \<and> \<bar>x - seconds_of match\<bar> \<le> 30"
proof (induction matches)
  case Nil
  then show ?case by simp
next
  case (Cons match matches)
  then show ?case
    by (cases available) (auto simp: Let_def min_by_key_closest split: if_splits)
qed

lemma collect_timestamps_complete:
  assumes "match \<in> set matches" and "y \<in> set available" and "\<bar>y - seconds_of match\<bar> \<le> 30"
  shows "\<exists>x \<in> set (collect_timestamps available matches).
           is_closest available (seconds_of match) x \<and> \<bar>x - seconds_of match\<bar> \<le> 30"
proof -
  from assms(2) obtain a as where av: "available = a # as" by (cases available) auto
  let ?c = "min_by_key (\<lambda>x. \<bar>x - seconds_of match\<bar>) a as"
  have cl: "is_closest available (seconds_of match) ?c"
    unfolding av by (rule min_by_key_closest)
  with assms(2,3) have le: "\<bar>?c - seconds_of match\<bar> \<le> 30"
    unfolding is_closest_def by force
  have "?c \<in> set (collect_timestamps available matches)"
    using assms(1) le unfolding av by (induction matches) (auto simp: Let_def)
  with cl le show ?thesis by blast
qed

lemma set_order_set: "is_set_order set_order \<Longrightarrow> set (set_order xs) = set xs"
  unfolding is_set_order_def by (metis mset_eq_setD)

lemma set_order_distinct: "is_set_order set_order \<Longrightarrow> distinct (set_order xs) = distinct xs"
  unfolding is_set_order_def by (metis mset_eq_imp_distinct_iff)

lemma set_extract_timestamps:
  "is_set_order set_order \<Longrightarrow>
   set (extract_timestamps set_order response available) =
   set (collect_timestamps available (findall_timestamps response))"
  by (simp add: extract_timestamps_def set_order_set)

lemma distinct_extract_timestamps:
  "is_set_order set_order \<Longrightarrow> distinct (extract_timestamps set_order response available)"
  by (simp add: extract_timestamps_def set_order_distinct)

lemma all_digit_codes: "\<forall>d \<in> set [0..<10]. (of_char (''0123456789'' ! d) :: nat) = 48 + d"
  by code_simp

lemma of_char_digit: "d < 10 \<Longrightarrow> (of_char (''0123456789'' ! d) :: nat) = 48 + d"
  using all_digit_codes by simp

lemma digit_val_digit: "d < 10 \<Longrightarrow> digit_val (''0123456789'' ! d) = d"
  by (simp add: digit_val_def of_char_digit)

lemma is_digit_reads:
  assumes "is_digit c"
  shows "digit_val c < 10 \<and> c = ''0123456789'' ! digit_val c"
proof -
  from assms have lt: "digit_val c < 10" and v: "48 + digit_val c = of_char c"
    unfolding is_digit_def digit_val_def by arith+
  have "(of_char c :: nat) = of_char (''0123456789'' ! digit_val c)"
    using of_char_digit [OF lt] v by simp
  then have "c = ''0123456789'' ! digit_val c" by (rule of_char_eqI)
  with lt show ?thesis by simp
qed

lemma reads_as_int_of_digits:
  assumes "reads_as ds n"
  shows "int_of_digits ds = n"
proof -
  from assms consider (one) "n < 10" "ds = [''0123456789'' ! n]"
    | (two) "n < 100" "ds = [''0123456789'' ! (n div 10), ''0123456789'' ! (n mod 10)]"
    unfolding reads_as_def by blast
  then show ?thesis
  proof cases
    case one
    then show ?thesis by (simp add: int_of_digits_def digit_val_digit)
  next
    case two
    then have "n div 10 < 10" and "n mod 10 < 10" by simp_all
    with two(2) show ?thesis by (simp add: int_of_digits_def digit_val_digit)
  qed
qed

lemma digits_read:
  assumes "list_all is_digit ds" and "length ds = 1 \<or> length ds = 2"
  shows "\<exists>n. reads_as ds n"
proof -
  from assms(2) consider (one) c where "ds = [c]" | (two) c1 c2 where "ds = [c1, c2]"
    by (cases ds; cases "tl ds") auto
  then show ?thesis
  proof cases
    case one
    with assms(1) have "is_digit c" by simp
    from is_digit_reads [OF this] one have "reads_as ds (digit_val c)"
      by (simp add: reads_as_def)
    then show ?thesis by blast
  next
    case two
    with assms(1) have "is_digit c1" "is_digit c2" by simp_all
    from is_digit_reads [OF this(1)] is_digit_reads [OF this(2)]
    have d: "digit_val c1 < 10" "c1 = ''0123456789'' ! digit_val c1"
      "digit_val c2 < 10" "c2 = ''0123456789'' ! digit_val c2" by simp_all
    let ?n = "10 * digit_val c1 + digit_val c2"
    from d(1,3) have "?n < 100" "?n div 10 = digit_val c1" "?n mod 10 = digit_val c2"
      by simp_all
    with two d(2,4) have "reads_as ds ?n" unfolding reads_as_def by simp
    then show ?thesis by blast
  qed
qed

lemma match_reads:
  assumes "match \<in> set (findall_timestamps response)"
  shows "(\<exists>mm ss. reads_as (fst match) mm \<and> reads_as (snd match) ss) \<and>
         (\<forall>mm ss. reads_as (fst match) mm \<and> reads_as (snd match) ss \<longrightarrow>
                  seconds_of match = real (60 * mm + ss))"
proof
  from assms have "(fst match, snd match) \<in> set (findall_timestamps response)" by simp
  from findall_timestamps_sound [OF this] obtain occ where
    "is_occurrence (fst match) (snd match) occ" by blast
  then have "\<exists>mm. reads_as (fst match) mm" and "\<exists>ss. reads_as (snd match) ss"
    using digits_read by (simp_all add: is_occurrence_def)
  then show "\<exists>mm ss. reads_as (fst match) mm \<and> reads_as (snd match) ss" by blast
  show "\<forall>mm ss. reads_as (fst match) mm \<and> reads_as (snd match) ss \<longrightarrow>
                  seconds_of match = real (60 * mm + ss)"
    by (auto simp: seconds_of_def reads_as_int_of_digits)
qed

text \<open>
  C3. Timestamp extraction. Every occurrence of the pattern \<open>[MM:SS]\<close> in the response is
  matched, and every match is such an occurrence. A match is converted to seconds: its
  groups read as numbers \<open>MM\<close> and \<open>SS\<close>, and its value is \<open>60 * MM + SS\<close>. With a
  non-empty list of candidates, each extracted reference is a candidate closest to the
  seconds value of some match and at most 30 seconds away from it; and every match that
  has a candidate within 30 seconds contributes a closest candidate. So a parsed value
  farther than 30 seconds from every candidate contributes nothing.
\<close>

theorem timestamp_extraction:
  assumes "is_set_order set_order" and "available \<noteq> []"
  shows "(\<forall>m s occ pre post.
            is_occurrence m s occ \<and> response = pre @ occ @ post \<longrightarrow>
            (m, s) \<in> set (findall_timestamps response)) \<and>
         (\<forall>match \<in> set (findall_timestamps response).
            \<exists>pre occ post. is_occurrence (fst match) (snd match) occ \<and>
                            response = pre @ occ @ post) \<and>
         (\<forall>match \<in> set (findall_timestamps response).
            (\<exists>mm ss. reads_as (fst match) mm \<and> reads_as (snd match) ss) \<and>
            (\<forall>mm ss. reads_as (fst match) mm \<and> reads_as (snd match) ss \<longrightarrow>
                     seconds_of match = real (60 * mm + ss))) \<and>
         (\<forall>x \<in> set (extract_timestamps set_order response available).
            \<exists>match \<in> set (findall_timestamps response).
              is_closest available (seconds_of match) x \<and> \<bar>x - seconds_of match\<bar> \<le> 30) \<and>
         (\<forall>match \<in> set (findall_timestamps response).
            (\<exists>y \<in> set available. \<bar>y - seconds_of match\<bar> \<le> 30) \<longrightarrow>
            (\<exists>x \<in> set (extract_timestamps set_order response available).
               is_closest available (seconds_of match) x \<and> \<bar>x - seconds_of match\<bar> \<le> 30))"
proof (intro conjI)
  show "\<forall>m s occ pre post.
            is_occurrence m s occ \<and> response = pre @ occ @ post \<longrightarrow>
            (m, s) \<in> set (findall_timestamps response)"
    using findall_timestamps_complete by blast
  show "\<forall>match \<in> set (findall_timestamps response).
            \<exists>pre occ post. is_occurrence (fst match) (snd match) occ \<and>
                            response = pre @ occ @ post"
    using findall_timestamps_sound by force
  show "\<forall>match \<in> set (findall_timestamps response).
            (\<exists>mm ss. reads_as (fst match) mm \<and> reads_as (snd match) ss) \<and>
            (\<forall>mm ss. reads_as (fst match) mm \<and> reads_as (snd match) ss \<longrightarrow>
                     seconds_of match = real (60 * mm + ss))"
    using match_reads by blast
  show "\<forall>x \<in> set (extract_timestamps set_order response available).
            \<exists>match \<in> set (findall_timestamps response).
              is_closest available (seconds_of match) x \<and> \<bar>x - seconds_of match\<bar> \<le> 30"
    using collect_timestamps_sound set_extract_timestamps [OF assms(1)] by blast
  show "\<forall>match \<in> set (findall_timestamps response).
            (\<exists>y \<in> set available. \<bar>y - seconds_of match\<bar> \<le> 30) \<longrightarrow>
            (\<exists>x \<in> set (extract_timestamps set_order response available).
               is_closest available (seconds_of match) x \<and> \<bar>x - seconds_of match\<bar> \<le> 30)"
    using collect_timestamps_complete set_extract_timestamps [OF assms(1)] by blast
qed

lemma findall_example_near:
  "findall_timestamps ''At [00:05] it starts'' = [(''00'', ''05'')]"
  by (simp add: match_timestamp_def match_seconds_def is_digit_def)

lemma findall_example_far:
  "findall_timestamps ''[05:00]'' = [(''05'', ''00'')]"
  by (simp add: match_timestamp_def match_seconds_def is_digit_def)

lemma seconds_of_examples:
  "seconds_of (''00'', ''05'') = 5" "seconds_of (''05'', ''00'') = 300"
  by (simp_all add: seconds_of_def int_of_digits_def digit_val_def)

lemma extract_example_near:
  "extract_timestamps (\<lambda>xs. xs) ''At [00:05] it starts'' [0, 5, 40] = [5]"
  by (simp only: extract_timestamps_def findall_example_near)
     (simp add: seconds_of_examples)

lemma extract_example_far:
  "extract_timestamps (\<lambda>xs. xs) ''[05:00]'' [0, 5, 40] = []"
  by (simp only: extract_timestamps_def findall_example_far)
     (simp add: seconds_of_examples)

lemma findall_example_minutes:
  "findall_timestamps ''[01:30]'' = [(''01'', ''30'')]"
  by (simp add: match_timestamp_def match_seconds_def is_digit_def)

lemma extract_example_minutes:
  "extract_timestamps (\<lambda>xs. xs) ''[01:30]'' [90, 130] = [90]"
  by (simp add: extract_timestamps_def findall_example_minutes seconds_of_def
        int_of_digits_def digit_val_def del: findall_timestamps.simps)

theorem timestamp_extraction_witness:
  "is_set_order (\<lambda>xs. xs) \<and> [0, 5, 40 :: real] \<noteq> [] \<and>
   (''00'', ''05'') \<in> set (findall_timestamps ''At [00:05] it starts'') \<and>
   extract_timestamps (\<lambda>xs. xs) ''At [00:05] it starts'' [0, 5, 40] = [5] \<and>
   is_closest [0, 5, 40] (seconds_of (''00'', ''05'')) 5 \<and>
   extract_timestamps (\<lambda>xs. xs) ''[05:00]'' [0, 5, 40] = [] \<and>
   reads_as ''01'' 1 \<and> reads_as ''30'' 30 \<and>
   seconds_of (''01'', ''30'') = 90 \<and>
   extract_timestamps (\<lambda>xs. xs) ''[01:30]'' [90, 130] = [90]"
proof -
  have ord: "is_set_order (\<lambda>xs. xs)" by (simp add: is_set_order_def)
  have ne: "[0, 5, 40 :: real] \<noteq> []" by simp
  have occ: "is_occurrence ''00'' ''05'' ''[00:05]''"
    by (simp add: is_occurrence_def is_digit_def)
  have sp: "''At [00:05] it starts'' = ''At '' @ ''[00:05]'' @ '' it starts''" by simp
  note te = timestamp_extraction [OF ord ne, of "''At [00:05] it starts''"]
  from te occ sp have found: "(''00'', ''05'') \<in> set (findall_timestamps ''At [00:05] it starts'')"
    by blast
  from te have "\<forall>x \<in> set (extract_timestamps (\<lambda>xs. xs) ''At [00:05] it starts'' [0, 5, 40]).
            \<exists>match \<in> set (findall_timestamps ''At [00:05] it starts'').
              is_closest [0, 5, 40] (seconds_of match) x \<and> \<bar>x - seconds_of match\<bar> \<le> 30"
    by blast
  then have cl: "is_closest [0, 5, 40] (seconds_of (''00'', ''05'')) 5"
    by (simp add: extract_example_near findall_example_near del: findall_timestamps.simps)
  have r1: "reads_as ''01'' 1" and r2: "reads_as ''30'' 30"
    by (simp_all add: reads_as_def)
  have mem: "(''01'', ''30'') \<in> set (findall_timestamps ''[01:30]'')"
    by (simp add: findall_example_minutes del: findall_timestamps.simps)
  from timestamp_extraction [OF ord ne, of "''[01:30]''"] mem
  have "\<forall>mm ss. reads_as (fst (''01'', ''30'')) mm \<and> reads_as (snd (''01'', ''30'')) ss \<longrightarrow>
                 seconds_of (''01'', ''30'') = real (60 * mm + ss)"
    by blast
  with r1 r2 have "seconds_of (''01'', ''30'') = real (60 * 1 + 30)" by simp
  then have sec: "seconds_of (''01'', ''30'') = 90" by simp
  show ?thesis
    using ord found cl extract_example_near extract_example_far r1 r2 sec
      extract_example_minutes by simp
qed

subsection \<open>Timestamp references delivered to the caller\<close>

lemma validate_sorted:
  "sorted (sort (v :: real list)) \<and> mset (sort v) = mset v"
  by simp

text \<open>
  C4, as the code has it. The references that the answer synthesizer extracts contain no
  duplicates, and the validator of \<open>ChatResponse\<close>, through which they are delivered,
  sorts them: the delivered list is sorted ascending and free of duplicates, and it is
  delivered whenever no candidate timestamp is negative. The validator of \<open>QueryResult\<close>
  sorts its list and rejects negative values, but keeps duplicates: its result is sorted
  ascending, non-negative, and has the elements of the input with their multiplicities.
\<close>

theorem delivered_timestamps_sorted:
  "(is_set_order set_order \<and>
    ChatResponse_validate_timestamps
      (snd (chat_with_video set_order text_model_available generated transcript_chunks frames)) = Inr refs \<longrightarrow>
      sorted refs \<and> distinct refs) \<and>
   (is_set_order set_order \<and>
    (\<forall>t \<in> set (context_timestamps transcript_chunks frames). 0 \<le> t) \<longrightarrow>
      (\<exists>refs'. ChatResponse_validate_timestamps
         (snd (chat_with_video set_order text_model_available generated transcript_chunks frames)) = Inr refs')) \<and>
   (QueryResult_validate_timestamps v = Inr sorted_v \<longrightarrow>
      sorted sorted_v \<and> mset sorted_v = mset v \<and> (\<forall>t \<in> set sorted_v. 0 \<le> t))"
proof (intro conjI impI)
  let ?ts = "snd (chat_with_video set_order text_model_available generated transcript_chunks frames)"
  have d: "distinct ?ts" if "is_set_order set_order"
    using that
    by (auto simp: chat_with_video_def Let_def distinct_extract_timestamps
             split: sum.splits option.splits)
  {
    assume a: "is_set_order set_order \<and> ChatResponse_validate_timestamps ?ts = Inr refs"
    then have refs: "refs = sort ?ts"
      by (auto simp: ChatResponse_validate_timestamps_def split: if_splits)
    then show "sorted refs" by simp
    from a d refs show "distinct refs" by simp
  }
  {
    assume a: "is_set_order set_order \<and>
               (\<forall>t \<in> set (context_timestamps transcript_chunks frames). 0 \<le> t)"
    have "x \<in> set (context_timestamps transcript_chunks frames)" if "x \<in> set ?ts" for x
    proof -
      from that have "x \<in> set (extract_timestamps set_order
              (case generated of Inr (Some t) \<Rightarrow> t | _ \<Rightarrow> ''Unable to generate response'')
              (context_timestamps transcript_chunks frames))"
        by (auto simp: chat_with_video_def Let_def split: sum.splits option.splits if_splits)
      then obtain match where
        "is_closest (context_timestamps transcript_chunks frames) (seconds_of match) x"
        using collect_timestamps_sound set_extract_timestamps a by blast
      then show ?thesis by (simp add: is_closest_def)
    qed
    with a have "\<forall>t \<in> set ?ts. 0 \<le> t" by blast
    then have "ChatResponse_validate_timestamps ?ts = Inr (sort ?ts)"
      by (auto simp: ChatResponse_validate_timestamps_def not_less)
    then show "\<exists>refs'. ChatResponse_validate_timestamps ?ts = Inr refs'" by blast
  }
  {
    assume a: "QueryResult_validate_timestamps v = Inr sorted_v"
    then have sv: "sorted_v = sort v" and nn: "\<forall>t \<in> set v. 0 \<le> t"
      by (auto simp: QueryResult_validate_timestamps_def not_less split: if_splits)
    from sv show "sorted sorted_v" by simp
    from sv show "mset sorted_v = mset v" by simp
    from sv nn show "\<forall>t \<in> set sorted_v. 0 \<le> t" by simp
  }
qed

text \<open>
  The list \<open>[1, 1]\<close> passes the validator of \<open>QueryResult\<close> unchanged: the timestamp
  references of a \<open>QueryResult\<close> are sorted, but not free of duplicates.
\<close>

theorem query_result_keeps_duplicates:
  "QueryResult_validate_timestamps [1, 1] = Inr [1, 1] \<and> \<not> distinct [1 :: real, 1]"
  by (simp add: QueryResult_validate_timestamps_def)

theorem delivered_timestamps_sorted_witness:
  "is_set_order (\<lambda>xs. xs) \<and>
   ChatResponse_validate_timestamps
     (snd (chat_with_video (\<lambda>xs. xs) True (Inr (Some ''[00:41] then [00:05] and [00:04]''))
        [\<lparr>chunk_id = ''v_transcript_0'', chunk_text = ''a'', start_time = 40, end_time = 45,
          chunk_confidence = None, speaker = None\<rparr>,
         \<lparr>chunk_id = ''v_transcript_1'', chunk_text = ''b'', start_time = 5, end_time = 9,
          chunk_confidence = None, speaker = None\<rparr>] [])) = Inr [5, 40] \<and>
   sorted [5 :: real, 40] \<and> distinct [5 :: real, 40] \<and>
   QueryResult_validate_timestamps [3, 1, 3] = Inr [1, 3, 3] \<and> sorted [1 :: real, 3, 3]"
proof -
  let ?chunks = "[\<lparr>chunk_id = ''v_transcript_0'', chunk_text = ''a'', start_time = 40, end_time = 45,
          chunk_confidence = None, speaker = None\<rparr>,
         \<lparr>chunk_id = ''v_transcript_1'', chunk_text = ''b'', start_time = 5, end_time = 9,
          chunk_confidence = None, speaker = None\<rparr>]"
  have ord: "is_set_order (\<lambda>xs. xs)" by (simp add: is_set_order_def)
  have f: "findall_timestamps ''[00:41] then [00:05] and [00:04]'' =
             [(''00'', ''41''), (''00'', ''05''), (''00'', ''04'')]"
    by (simp add: match_timestamp_def match_seconds_def is_digit_def)
  have s: "seconds_of (''00'', ''41'') = 41" "seconds_of (''00'', ''05'') = 5"
    "seconds_of (''00'', ''04'') = 4"
    by (simp_all add: seconds_of_def int_of_digits_def digit_val_def)
  have e: "snd (chat_with_video (\<lambda>xs. xs) True (Inr (Some ''[00:41] then [00:05] and [00:04]''))
                  ?chunks []) = [40, 5]"
    by (simp add: chat_with_video_def context_timestamps_def extract_timestamps_def f s
             del: findall_timestamps.simps)
  have c: "ChatResponse_validate_timestamps [40, 5] = Inr [5, 40]"
    by (simp add: ChatResponse_validate_timestamps_def)
  have q: "QueryResult_validate_timestamps [3, 1, 3] = Inr [1, 3, 3]"
    by (simp add: QueryResult_validate_timestamps_def)
  from delivered_timestamps_sorted
         [of "\<lambda>xs. xs" True "Inr (Some ''[00:41] then [00:05] and [00:04]'')" ?chunks "[]"
             "[5, 40]" "[3, 1, 3]" "[1, 3, 3]"]
       ord e c q
  have "sorted [5 :: real, 40] \<and> distinct [5 :: real, 40] \<and> sorted [1 :: real, 3, 3]"
    by simp
  with ord e c q show ?thesis by simp
qed

subsection \<open>Pseudo-transcript synthesis\<close>

lemma insort_key_map:
  "insort_key f (g x) (map g ys) = map g (insort_key (\<lambda>y. f (g y)) x ys)"
  by (induction ys) simp_all

lemma sort_key_map:
  "sort_key f (map g xs) = map g (sort_key (\<lambda>y. f (g y)) xs)"
  by (induction xs) (simp_all add: insort_key_map)

lemma map_sort_key: "map f (sort_key f xs) = sort (map f xs)"
  using sort_key_map [of "\<lambda>x. x" f xs] by simp

lemma analyze_frames_all_exist:
  "\<forall>frame \<in> set frames. path_exists env (frame_path frame) \<Longrightarrow>
   analyze_frames env frames =
     map (\<lambda>frame. frame\<lparr>scene_description := Some (analyze_image env (frame_path frame))\<rparr>) frames"
  by (induction frames) simp_all

lemma pseudo_chunks_start:
  "\<forall>frame \<in> set fs. described frame \<Longrightarrow>
   map start_time (pseudo_chunks video_id i fs) = map timestamp fs"
  by (induction fs arbitrary: i) (auto simp: described_def split: option.splits)

lemma pseudo_chunks_end:
  "\<forall>frame \<in> set fs. described frame \<Longrightarrow> fs \<noteq> [] \<Longrightarrow>
   map end_time (pseudo_chunks video_id i fs) = tl (map timestamp fs) @ [timestamp (last fs) + 5]"
proof (induction fs arbitrary: i)
  case Nil
  then show ?case by simp
next
  case (Cons frame rest)
  show ?case
  proof (cases rest)
    case Nil
    with Cons.prems show ?thesis by (auto simp: described_def split: option.splits)
  next
    case (Cons next_frame rest')
    with Cons.prems Cons.IH [of "Suc i"] show ?thesis
      by (auto simp: described_def split: option.splits)
  qed
qed

text \<open>
  C1, as the code has it. The function analyses the frames again: it leaves out a frame
  whose image file does not exist and replaces every description by the one the analysis
  returns. For a non-empty list of \<open>n\<close> frames whose files all exist and whose analysis
  returns a non-empty description each, it returns \<open>n\<close> chunks in the order of the frame
  timestamps; each chunk but the last ends where the next one starts, and the last chunk
  ends five seconds after its start.
\<close>

theorem pseudo_transcript_contiguous:
  assumes "frames \<noteq> []"
    and "\<forall>frame \<in> set frames.
           path_exists env (frame_path frame) \<and> analyze_image env (frame_path frame) \<noteq> []"
  shows "length (generate_pseudo_transcript_from_frames env video_id frames) = length frames \<and>
         map start_time (generate_pseudo_transcript_from_frames env video_id frames) =
           sort (map timestamp frames) \<and>
         (\<forall>i. Suc i < length frames \<longrightarrow>
            end_time (generate_pseudo_transcript_from_frames env video_id frames ! i) =
            start_time (generate_pseudo_transcript_from_frames env video_id frames ! Suc i)) \<and>
         end_time (last (generate_pseudo_transcript_from_frames env video_id frames)) =
           start_time (last (generate_pseudo_transcript_from_frames env video_id frames)) + 5"
proof -
  let ?upd = "\<lambda>frame. frame\<lparr>scene_description := Some (analyze_image env (frame_path frame))\<rparr>"
  let ?sf = "map ?upd (sort_key timestamp frames)"
  let ?chunks = "generate_pseudo_transcript_from_frames env video_id frames"
  have an: "analyze_video_frames env frames = map ?upd frames"
    using assms by (simp add: analyze_video_frames_def analyze_frames_all_exist)
  have "sort_key timestamp (map ?upd frames) = ?sf"
    by (simp add: sort_key_map)
  with an assms(1) have chunks: "?chunks = pseudo_chunks video_id 0 ?sf"
    by (simp add: generate_pseudo_transcript_from_frames_def)
  have desc: "\<forall>frame \<in> set ?sf. described frame"
    using assms(2) by (auto simp: described_def)
  have "length ?sf = length frames" by simp
  with assms(1) have ne: "?sf \<noteq> []" by (metis length_0_conv)
  have ts: "map timestamp ?sf = sort (map timestamp frames)"
    by (simp add: o_def map_sort_key)
  have st: "map start_time ?chunks = sort (map timestamp frames)"
    unfolding chunks using pseudo_chunks_start [OF desc] ts by simp
  have en: "map end_time ?chunks = tl (sort (map timestamp frames)) @ [timestamp (last ?sf) + 5]"
    unfolding chunks using pseudo_chunks_end [OF desc ne] ts by simp
  have len: "length ?chunks = length frames"
    using arg_cong [OF st, of length] by simp
  have adj: "end_time (?chunks ! i) = start_time (?chunks ! Suc i)" if "Suc i < length frames" for i
  proof -
    from that len have "end_time (?chunks ! i) = map end_time ?chunks ! i" by simp
    also have "\<dots> = tl (sort (map timestamp frames)) ! i"
    proof -
      from that have "i < length (tl (sort (map timestamp frames)))" by simp
      then show ?thesis unfolding en by (simp only: nth_append if_True)
    qed
    also have "\<dots> = sort (map timestamp frames) ! Suc i"
      using that by (simp add: nth_tl)
    also have "\<dots> = map start_time ?chunks ! Suc i" by (simp add: st)
    also have "\<dots> = start_time (?chunks ! Suc i)" using that len by simp
    finally show ?thesis .
  qed
  have cne: "?chunks \<noteq> []" using len assms(1) by auto
  have "end_time (last ?chunks) = last (map end_time ?chunks)"
    using cne by (simp add: last_map)
  also have "\<dots> = timestamp (last ?sf) + 5" unfolding en by simp
  also have "timestamp (last ?sf) = last (map timestamp ?sf)" using ne by (simp add: last_map)
  also have "\<dots> = last (map start_time ?chunks)" by (simp only: st ts)
  also have "\<dots> = start_time (last ?chunks)" using cne by (simp add: last_map)
  finally have lst: "end_time (last ?chunks) = start_time (last ?chunks) + 5" .
  from len st adj lst show ?thesis by blast
qed

lemma two_frames_transcript:
  "generate_pseudo_transcript_from_frames all_files ''v'' two_frames =
     [\<lparr>chunk_id = ''v_visual_transcript_0'', chunk_text = ''Visual: Scene of a.jpg'',
       start_time = 3, end_time = 12, chunk_confidence = None, speaker = None\<rparr>,
      \<lparr>chunk_id = ''v_visual_transcript_1'', chunk_text = ''Visual: Scene of b.jpg'',
       start_time = 12, end_time = 17, chunk_confidence = None, speaker = None\<rparr>]"
  by (simp add: generate_pseudo_transcript_from_frames_def analyze_video_frames_def
        two_frames_def all_files_def analyze_image_def strip_def py_isspace_def
        str_nat.simps digit_char_def)

theorem pseudo_transcript_contiguous_witness:
  "two_frames \<noteq> [] \<and>
   length (generate_pseudo_transcript_from_frames all_files ''v'' two_frames) = 2 \<and>
   map start_time (generate_pseudo_transcript_from_frames all_files ''v'' two_frames) = [3, 12] \<and>
   end_time (generate_pseudo_transcript_from_frames all_files ''v'' two_frames ! 0) =
     start_time (generate_pseudo_transcript_from_frames all_files ''v'' two_frames ! 1) \<and>
   end_time (last (generate_pseudo_transcript_from_frames all_files ''v'' two_frames)) = 12 + 5"
proof -
  have ne: "two_frames \<noteq> []" by (simp add: two_frames_def)
  have ok: "\<forall>frame \<in> set two_frames.
           path_exists all_files (frame_path frame) \<and>
           analyze_image all_files (frame_path frame) \<noteq> []"
    by (simp add: two_frames_def all_files_def analyze_image_def strip_def py_isspace_def)
  have len: "length two_frames = 2" by (simp add: two_frames_def)
  have ts: "sort (map timestamp two_frames) = [3, 12]" by (simp add: two_frames_def)
  from pseudo_transcript_contiguous [OF ne ok, of "''v''"] len ts
  have "length (generate_pseudo_transcript_from_frames all_files ''v'' two_frames) = 2"
    and "map start_time (generate_pseudo_transcript_from_frames all_files ''v'' two_frames) = [3, 12]"
    and "end_time (generate_pseudo_transcript_from_frames all_files ''v'' two_frames ! 0) =
         start_time (generate_pseudo_transcript_from_frames all_files ''v'' two_frames ! Suc 0)"
    by simp_all
  moreover have "end_time (last (generate_pseudo_transcript_from_frames all_files ''v'' two_frames))
                 = 12 + 5"
    by (simp add: two_frames_transcript)
  ultimately show ?thesis using ne by simp
qed

text \<open>
  A single frame that carries a non-empty description, but whose image file no longer
  exists, yields no chunk at all.
\<close>

theorem pseudo_transcript_lost_frame:
  "described lost_frame \<and> generate_pseudo_transcript_from_frames no_files ''v'' [lost_frame] = []"
  by (simp add: described_def lost_frame_def no_files_def
        generate_pseudo_transcript_from_frames_def analyze_video_frames_def)

subsection \<open>The retrieval engine contains its exceptions\<close>









subsection \<open>Relevance scores of the semantic search\<close>

lemma SearchResult_new_without_id:
  "kwargs ''id'' = None \<Longrightarrow> SearchResult_new kwargs = Inl ValidationError"
  by (simp add: SearchResult_new_def required_str_def bind_result_def)

lemma search_result_at_raises: "\<exists>e. search_result_at results i metadata = Inl e"
proof (cases "first_list (distances results)")
  case (Inl e)
  then show ?thesis by (simp add: search_result_at_def bind_result_def)
next
  case dists: (Inr dists)
  show ?thesis
  proof (cases "first_list (documents results)")
    case (Inl e)
    with dists show ?thesis by (simp add: search_result_at_def bind_result_def)
  next
    case (Inr docs)
    with dists show ?thesis
      by (simp add: search_result_at_def bind_result_def Let_def SearchResult_new_without_id)
  qed
qed

lemma for_each_raises:
  "\<forall>i x. \<exists>e. f i x = Inl e \<Longrightarrow> xs \<noteq> [] \<Longrightarrow> \<exists>e. for_each f i xs = Inl e"
proof (cases xs)
  case Nil
  assume "xs \<noteq> []"
  with Nil show ?thesis by simp
next
  case (Cons x rest)
  assume "\<forall>i x. \<exists>e. f i x = Inl e"
  then obtain e where "f i x = Inl e" by blast
  with Cons show ?thesis by (simp add: bind_result_def)
qed

lemma for_each_Inr_Nil:
  "for_each f i xs = Inr [] \<longleftrightarrow> xs = []"
  by (cases xs) (auto simp: bind_result_def split: sum.splits)

lemma search_similar_content_body_result:
  "search_similar_content_body gen db_query query video_ids content_type max_results = Inr rs \<Longrightarrow>
   rs = []"
  unfolding search_similar_content_body_def Let_def bind_result_Inr sort_by_relevance_score_def
  by (auto split: if_splits)

text \<open>
  C2. The semantic search computes \<open>max(0, 1 - distance)\<close> for each match and then builds
  a \<open>SearchResult\<close> from keyword arguments (\<open>relevance_score\<close>, \<open>content_type\<close>, ...) that
  do not supply the required fields \<open>id\<close>, \<open>score\<close> and \<open>type\<close>: the constructor raises
  for the first match, the handler of the function catches the exception, and the
  function returns the empty list. So \<open>search_similar_content\<close> returns the empty list for
  every query and every answer of the store, and no match ever reaches the caller with its
  score.
\<close>

theorem search_similar_content_always_empty:
  "search_similar_content gen db_query query video_ids content_type max_results = Inr []"
  using search_similar_content_body_result [of gen db_query query video_ids content_type max_results]
  by (auto simp: search_similar_content_def split: sum.splits)

lemma search_similar_content_one_match:
  "search_similar_content (\<lambda>texts. Inr (zero_vectors texts)) (\<lambda>q n w. Inr one_match)
     ''hello'' None None 20 = Inr [] \<and>
   search_similar_content_body (\<lambda>texts. Inr (zero_vectors texts)) (\<lambda>q n w. Inr one_match)
     ''hello'' None None 20 = Inl ValidationError"
  by (simp add: search_similar_content_def search_similar_content_body_def bind_result_def
        one_match_def search_result_at_def first_list_def SearchResult_new_def required_str_def)

subsection \<open>Content indexer\<close>

lemma embed_all_length:
  "embed_all embed_one texts = Inr embeddings \<Longrightarrow> length embeddings = length texts"
  by (induction texts arbitrary: embeddings) (auto simp: bind_result_Inr)

lemma generate_text_embeddings_length:
  "length (generate_text_embeddings env texts) = length texts"
  by (auto simp: generate_text_embeddings_def zero_vectors_def embed_all_length split: sum.splits)

lemma generate_text_embeddings_degraded:
  assumes "\<not> embedding_model_available env \<or> (\<exists>e. embed_all (embed_content env) texts = Inl e)"
  shows "generate_text_embeddings env texts = map (\<lambda>_. replicate 384 0) texts"
  using assms by (auto simp: generate_text_embeddings_def zero_vectors_def)

lemma for_each_transcript_record:
  "\<exists>records. for_each (transcript_record video_id) i ces = Inr records \<and>
     length records = length ces \<and>
     map record_id records =
       map (\<lambda>k. video_id @ ''_transcript_'' @ str_nat k) [i..<i + length ces] \<and>
     map record_embedding records = map snd ces \<and>
     map record_document records = map (\<lambda>ce. chunk_text (fst ce)) ces"
proof (induction ces arbitrary: i)
  case Nil
  then show ?case by simp
next
  case (Cons ce ces)
  from Cons [of "Suc i"] obtain records where
    r: "for_each (transcript_record video_id) (Suc i) ces = Inr records"
       "length records = length ces"
       "map record_id records =
          map (\<lambda>k. video_id @ ''_transcript_'' @ str_nat k) [Suc i..<Suc i + length ces]"
       "map record_embedding records = map snd ces"
       "map record_document records = map (\<lambda>ce. chunk_text (fst ce)) ces"
    by blast
  have u: "[i..<i + length (ce # ces)] = i # [Suc i..<Suc i + length ces]"
    by (simp add: upt_rec)
  obtain rec0 where rec0: "transcript_record video_id i ce = Inr rec0"
    and p: "record_id rec0 = video_id @ ''_transcript_'' @ str_nat i"
      "record_embedding rec0 = snd ce" "record_document rec0 = chunk_text (fst ce)"
    by (simp add: transcript_record_def Let_def)
  from rec0 r(1) have "for_each (transcript_record video_id) i (ce # ces) = Inr (rec0 # records)"
    by simp
  moreover have "length (rec0 # records) = length (ce # ces)" using r(2) by simp
  moreover have "map record_id (rec0 # records) =
       map (\<lambda>k. video_id @ ''_transcript_'' @ str_nat k) [i..<i + length (ce # ces)]"
    unfolding u using r(3) p(1) by (simp del: upt_Suc)
  moreover have "map record_embedding (rec0 # records) = map snd (ce # ces)"
    using r(4) p(2) by simp
  moreover have "map record_document (rec0 # records) = map (\<lambda>ce. chunk_text (fst ce)) (ce # ces)"
    using r(5) p(3) by simp
  ultimately show ?case by blast
qed

text \<open>
  Transcript units. When no frame carries a description, \<open>index_video_content\<close> returns
  false without touching the store if there is no transcript chunk; otherwise it makes one
  bulk upsert with exactly one record per transcript chunk, in order, with the identifier
  \<open>{video_id}_transcript_{i}\<close>, the text of the chunk and the embedding that
  \<open>generate_text_embeddings\<close> returns for it (the zero-vector of 384 entries when the
  embeddings are degraded), and returns true with the updated store when the upsert
  succeeds and false with the store unchanged when the upsert raises.
\<close>

lemma index_transcript_units:
  assumes "\<forall>frame \<in> set frames. \<not> described frame"
  shows "(transcript_chunks = [] \<longrightarrow>
            index_video_content (\<lambda>texts. Inr (generate_text_embeddings env texts)) db_add store
              video_id transcript_chunks frames = (False, store)) \<and>
         (transcript_chunks \<noteq> [] \<longrightarrow>
            (\<exists>records.
               length records = length transcript_chunks \<and>
               map record_id records =
                 map (\<lambda>i. video_id @ ''_transcript_'' @ str_nat i) [0..<length transcript_chunks] \<and>
               map record_document records = map chunk_text transcript_chunks \<and>
               map record_embedding records =
                 generate_text_embeddings env (map chunk_text transcript_chunks) \<and>
               (\<not> embedding_model_available env \<or>
                (\<exists>e. embed_all (embed_content env) (map chunk_text transcript_chunks) = Inl e) \<longrightarrow>
                  (\<forall>r \<in> set records. record_embedding r = replicate 384 0)) \<and>
               index_video_content (\<lambda>texts. Inr (generate_text_embeddings env texts)) db_add store
                   video_id transcript_chunks frames =
                 (case db_add store records of
                    Inr store' \<Rightarrow> (True, store')
                  | Inl e \<Rightarrow> (False, store))))"
proof (intro conjI impI)
  have nf: "filter described frames = []" using assms by (simp add: filter_empty_conv)
  {
    assume "transcript_chunks = []"
    then show "index_video_content (\<lambda>texts. Inr (generate_text_embeddings env texts)) db_add store
              video_id transcript_chunks frames = (False, store)"
      by (simp add: index_video_content_def index_video_content_body_def nf)
  }
  {
    assume ne: "transcript_chunks \<noteq> []"
    let ?texts = "map chunk_text transcript_chunks"
    let ?embs = "generate_text_embeddings env ?texts"
    let ?ces = "zip transcript_chunks ?embs"
    have len: "length ?embs = length transcript_chunks"
      by (simp add: generate_text_embeddings_length)
    from for_each_transcript_record [of video_id 0 ?ces] obtain records where
      fe: "for_each (transcript_record video_id) 0 ?ces = Inr records" and
      l: "length records = length ?ces" and
      ids: "map record_id records =
              map (\<lambda>k. video_id @ ''_transcript_'' @ str_nat k) [0..<0 + length ?ces]" and
      em: "map record_embedding records = map snd ?ces" and
      doc: "map record_document records = map (\<lambda>ce. chunk_text (fst ce)) ?ces"
      by blast
    have l': "length records = length transcript_chunks" using l len by simp
    have ids': "map record_id records =
                  map (\<lambda>i. video_id @ ''_transcript_'' @ str_nat i) [0..<length transcript_chunks]"
      using ids len by simp
    have em': "map record_embedding records = ?embs"
      using em len by (simp add: map_snd_zip)
    have "map (\<lambda>ce. chunk_text (fst ce)) ?ces = map chunk_text (map fst ?ces)" by simp
    also have "map fst ?ces = transcript_chunks" using len by (simp add: map_fst_zip)
    finally have doc': "map record_document records = ?texts" using doc by simp
    have zero: "\<forall>r \<in> set records. record_embedding r = replicate 384 0"
      if "\<not> embedding_model_available env \<or> (\<exists>e. embed_all (embed_content env) ?texts = Inl e)"
    proof
      fix r assume "r \<in> set records"
      then have "record_embedding r \<in> set (map record_embedding records)" by simp
      then have "record_embedding r \<in> set (map (\<lambda>_. replicate 384 (0::real)) ?texts)"
        using em' generate_text_embeddings_degraded [OF that] by simp
      then show "record_embedding r = replicate 384 0" by auto
    qed
    have rne: "records \<noteq> []" using l' ne by auto
    have run: "index_video_content (\<lambda>texts. Inr (generate_text_embeddings env texts)) db_add store
                   video_id transcript_chunks frames =
                 (case db_add store records of
                    Inr store' \<Rightarrow> (True, store')
                  | Inl e \<Rightarrow> (False, store))"
      using ne fe rne
      by (simp add: index_video_content_def index_video_content_body_def nf Let_def
               split: sum.splits)
    from l' ids' doc' em' zero run
    show "\<exists>records.
               length records = length transcript_chunks \<and>
               map record_id records =
                 map (\<lambda>i. video_id @ ''_transcript_'' @ str_nat i) [0..<length transcript_chunks] \<and>
               map record_document records = map chunk_text transcript_chunks \<and>
               map record_embedding records =
                 generate_text_embeddings env (map chunk_text transcript_chunks) \<and>
               (\<not> embedding_model_available env \<or>
                (\<exists>e. embed_all (embed_content env) (map chunk_text transcript_chunks) = Inl e) \<longrightarrow>
                  (\<forall>r \<in> set records. record_embedding r = replicate 384 0)) \<and>
               index_video_content (\<lambda>texts. Inr (generate_text_embeddings env texts)) db_add store
                   video_id transcript_chunks frames =
                 (case db_add store records of
                    Inr store' \<Rightarrow> (True, store')
                  | Inl e \<Rightarrow> (False, store))"
      by blast
  }
qed

lemma index_hello_chunk:
  "index_video_content (\<lambda>texts. Inr (generate_text_embeddings no_embedding_model texts))
      append_records [] ''v'' [hello_chunk] [plain_frame] =
     (True,
      [\<lparr>record_id = ''v_transcript_0'', record_embedding = replicate 384 0,
        record_metadata =
          [''video_id'' \<mapsto> PStr ''v'', ''content_type'' \<mapsto> PStr ''transcript'',
           ''start_time'' \<mapsto> PNum 0, ''end_time'' \<mapsto> PNum 5,
           ''chunk_id'' \<mapsto> PStr ''v_transcript_0''],
        record_document = ''hello''\<rparr>])"
  by (simp add: index_video_content_def index_video_content_body_def Let_def
        generate_text_embeddings_def no_embedding_model_def zero_vectors_def
        hello_chunk_def plain_frame_def described_def transcript_record_def
        append_records_def str_nat.simps digit_char_def)

lemma index_transcript_units_example:
  "\<not> described plain_frame \<and>
   index_video_content (\<lambda>texts. Inr (generate_text_embeddings no_embedding_model texts))
      append_records [] ''v'' [] [plain_frame] = (False, []) \<and>
   fst (index_video_content (\<lambda>texts. Inr (generate_text_embeddings no_embedding_model texts))
      append_records [] ''v'' [hello_chunk] [plain_frame]) = True \<and>
   length (snd (index_video_content (\<lambda>texts. Inr (generate_text_embeddings no_embedding_model texts))
      append_records [] ''v'' [hello_chunk] [plain_frame])) = 1"
proof -
  have nd: "\<forall>frame \<in> set [plain_frame]. \<not> described frame"
    by (simp add: plain_frame_def described_def)
  note t = index_transcript_units [OF nd, of _ no_embedding_model append_records "[]" "''v''"]
  from t [of "[]"] have 1:
    "index_video_content (\<lambda>texts. Inr (generate_text_embeddings no_embedding_model texts))
      append_records [] ''v'' [] [plain_frame] = (False, [])"
    by simp
  from t [of "[hello_chunk]"] obtain records where
    "length records = length [hello_chunk]" and
    "index_video_content (\<lambda>texts. Inr (generate_text_embeddings no_embedding_model texts))
        append_records [] ''v'' [hello_chunk] [plain_frame] =
       (case append_records [] records of Inr store' \<Rightarrow> (True, store') | Inl e \<Rightarrow> (False, []))"
    by auto
  then have 2:
    "fst (index_video_content (\<lambda>texts. Inr (generate_text_embeddings no_embedding_model texts))
        append_records [] ''v'' [hello_chunk] [plain_frame]) = True \<and>
     length (snd (index_video_content
        (\<lambda>texts. Inr (generate_text_embeddings no_embedding_model texts))
        append_records [] ''v'' [hello_chunk] [plain_frame])) = 1"
    by (simp add: append_records_def)
  from nd 1 2 show ?thesis by simp
qed

lemma frame_record_raises: "\<exists>e. frame_record video_id i fe = Inl e"
  by (simp add: frame_record_def frame_thumbnail_path_def Let_def)

text \<open>
  Visual units. As soon as one frame of the batch carries a description, building the
  record of the first described frame reads \<open>thumbnail_path\<close>, the exception reaches the
  handler of the function, nothing is stored and the flag is false, whatever transcript
  chunks the batch holds.
\<close>

lemma index_with_described_frame:
  assumes "\<exists>frame \<in> set frames. described frame"
  shows "index_video_content (\<lambda>texts. Inr (generate_text_embeddings env texts)) db_add store
           video_id transcript_chunks frames = (False, store)"
proof -
  let ?gen = "\<lambda>texts. Inr (generate_text_embeddings env texts) :: error + real list list"
  let ?frame_data = "filter described frames"
  let ?descs = "map description_of ?frame_data"
  let ?pairs = "zip ?frame_data (generate_text_embeddings env ?descs)"
  from assms have fd: "?frame_data \<noteq> []" by (simp add: filter_empty_conv)
  then have "length ?pairs = length ?frame_data"
    by (simp add: generate_text_embeddings_length)
  with fd have "?pairs \<noteq> []" by (metis length_0_conv)
  from for_each_raises [OF _ this, of "frame_record video_id" 0] frame_record_raises
  obtain e where fr: "for_each (frame_record video_id) 0 ?pairs = Inl e" by blast
  obtain records where
    tr: "for_each (transcript_record video_id) 0
           (zip transcript_chunks
              (generate_text_embeddings env (map chunk_text transcript_chunks))) = Inr records"
    using for_each_transcript_record by blast
  have "index_video_content_body ?gen db_add store video_id transcript_chunks frames = Inl e"
    using fd fr tr by (simp add: index_video_content_body_def Let_def)
  then show ?thesis by (simp add: index_video_content_def)
qed

text \<open>
  C6. A batch of one transcript chunk and one frame with a description is not empty, and
  both are content units. \<open>index_video_content\<close> returns false for it and stores no
  record: the record of the frame reads \<open>frame.thumbnail_path\<close>, a field that
  \<open>FrameData\<close> does not declare, and the handler of the function turns the exception
  into the flag false. The same batch without the frame is stored and gives true.
\<close>

theorem index_described_frame_not_stored:
  "described described_frame \<and>
   index_video_content (\<lambda>texts. Inr (generate_text_embeddings no_embedding_model texts))
      append_records [] ''v'' [hello_chunk] [described_frame] = (False, []) \<and>
   fst (index_video_content (\<lambda>texts. Inr (generate_text_embeddings no_embedding_model texts))
      append_records [] ''v'' [hello_chunk] []) = True"
proof -
  have d: "described described_frame" by (simp add: described_frame_def described_def)
  then have "\<exists>frame \<in> set [described_frame]. described frame" by simp
  from index_with_described_frame [OF this]
  have 1: "index_video_content (\<lambda>texts. Inr (generate_text_embeddings no_embedding_model texts))
      append_records [] ''v'' [hello_chunk] [described_frame] = (False, [])" .
  have 2: "fst (index_video_content
      (\<lambda>texts. Inr (generate_text_embeddings no_embedding_model texts))
      append_records [] ''v'' [hello_chunk] []) = True"
    by (simp add: index_video_content_def index_video_content_body_def Let_def
        generate_text_embeddings_def no_embedding_model_def zero_vectors_def
        hello_chunk_def transcript_record_def append_records_def)
  from d 1 2 show ?thesis by simp
qed

subsection \<open>Progress of a pipeline run\<close>


lemma keeps_status_simps [simp]:
  "\<not> keeps_status (Assign entry)" "keeps_status (Update p m n)" "keeps_status (Set_progress v)"
  by (simp_all add: keeps_status_def)



















text \<open>
  With the chapter stage of the source every run ends as \<open>failed\<close>: the last progress
  value before the terminal entry is 0.8, and the checkpoints 0.9 and 1.0 are not written.
\<close>

lemma pipeline_fails_at_chapters:
  "final_stage (chapter_stage video_id metadata transcript_chunks) transcript_chunks =
     [Assign \<lparr>status = ''failed'', progress = 0,
              message = Some (''Processing failed: '' @
                 str_error (if video_status metadata \<noteq> TRANSCRIPT_ONLY \<and> path_of metadata \<noteq> []
                            then TypeError else AttributeError)),
              note_opt = None\<rparr>]"
  by (simp add: final_stage_def chapter_stage_def call_generate_video_chapters_def
        call_generate_chapters_from_transcript_def)

end
